theory Spec2Isabelle
  imports Main
begin

section \<open>The version bump script of the fullcalendar monorepo\<close>

text \<open>
  The repository holds one release script in two variants:
  \<^verbatim>\<open>src/scripts/update-version.js\<close> (the tool the specification describes) and an
  earlier variant of the same script, \<^verbatim>\<open>src/unnamed/part_000\<close>.
  Both are embedded here function by function. The script runs once, top to bottom, on
  a file system and a version-control checkout; the embedding threads both through
  every step as an explicit state and records each effect in a trace.
\<close>

subsection \<open>JavaScript values read from a manifest\<close>

text \<open>
  \<^verbatim>\<open>JSON.parse\<close> yields a tree of JavaScript values. An object is kept as the list
  of its own properties in the engine's property order; a number is kept as its decimal
  text (what \<^verbatim>\<open>String(n)\<close> gives), since the script never computes with one.
  A variable that may be \<^verbatim>\<open>undefined\<close> has type \<open>json option\<close>.
\<close>

datatype json =
    JNull
  | JBool bool
  | JNumber string
  | JString string
  | JArray "json list"
  | JObject "(string \<times> json) list"

type_synonym path = "string list"

datatype error =
    ENOENT path
  | EISDIR path
  | ENOTDIR path
  | SyntaxError
  | TypeError
  | NoProjectRoot
  | CommandFailed string

text \<open>Sequencing of steps that may throw: the first exception ends the sequence.\<close>

definition and_then :: "error + 'a \<Rightarrow> ('a \<Rightarrow> error + 'b) \<Rightarrow> error + 'b" where
  "and_then r f = (case r of Inl e \<Rightarrow> Inl e | Inr x \<Rightarrow> f x)"

text \<open>\<^verbatim>\<open>xs.forEach(x => ...)\<close> over a body that updates a value and may throw.\<close>

fun forEach :: "'a list \<Rightarrow> ('a \<Rightarrow> 's \<Rightarrow> error + 's) \<Rightarrow> 's \<Rightarrow> error + 's" where
  "forEach [] f s = Inr s"
| "forEach (x # xs) f s = and_then (f x s) (forEach xs f)"

text \<open>Decimal text of an array index, as \<^verbatim>\<open>Object.keys\<close> returns it.\<close>

definition digit_char :: "nat \<Rightarrow> char" where
  "digit_char d = ''0123456789'' ! d"

fun dec :: "nat \<Rightarrow> string" where
  "dec n = (if n < 10 then [digit_char n] else dec (n div 10) @ [digit_char (n mod 10)])"

declare dec.simps [simp del]

text \<open>
  Truthiness of \<^verbatim>\<open>if (x)\<close> and \<^verbatim>\<open>!x\<close>: \<^verbatim>\<open>undefined\<close>,
  \<^verbatim>\<open>null\<close>, \<^verbatim>\<open>false\<close>, zero and the empty string are falsy.
\<close>

fun truthy :: "json option \<Rightarrow> bool" where
  "truthy None = False"
| "truthy (Some JNull) = False"
| "truthy (Some (JBool b)) = b"
| "truthy (Some (JNumber t)) = (t \<noteq> ''0'')"
| "truthy (Some (JString s)) = (s \<noteq> [])"
| "truthy (Some (JArray xs)) = True"
| "truthy (Some (JObject kvs)) = True"

text \<open>
  \<^verbatim>\<open>value[name]\<close> for the names the scripts read (\<^verbatim>\<open>version\<close> and the three
  dependency fields; none is an index, \<^verbatim>\<open>length\<close> or a prototype property):
  reading a property of \<^verbatim>\<open>null\<close> throws, a primitive or an array has no such
  property, an object yields its own property of that name.
\<close>

fun get_prop :: "json \<Rightarrow> string \<Rightarrow> error + json option" where
  "get_prop JNull k = Inl TypeError"
| "get_prop (JObject kvs) k = Inr (map_of kvs k)"
| "get_prop v k = Inr None"

text \<open>
  \<^verbatim>\<open>obj[name] = v\<close> on an object: an existing property keeps its place in the
  property order, a new one (not an index) goes to the end.
\<close>

definition obj_set :: "string \<Rightarrow> json \<Rightarrow> (string \<times> json) list \<Rightarrow> (string \<times> json) list" where
  "obj_set k v kvs =
     (if k \<in> fst ` set kvs then map (\<lambda>(k', v'). if k' = k then (k', v) else (k', v')) kvs
      else kvs @ [(k, v)])"

text \<open>
  \<^verbatim>\<open>value[name] = v\<close>. The scripts are ES modules, hence strict code: assigning a
  property of a primitive throws a TypeError, like that of \<^verbatim>\<open>null\<close>. On an
  array, an index in range replaces the element; any other name the scripts assign
  (\<^verbatim>\<open>version\<close>) becomes a property that \<^verbatim>\<open>JSON.stringify\<close> does not
  print, so the array's value is as before.
\<close>

fun set_prop :: "json \<Rightarrow> string \<Rightarrow> json \<Rightarrow> error + json" where
  "set_prop (JObject kvs) k v = Inr (JObject (obj_set k v kvs))"
| "set_prop (JArray xs) k v =
     Inr (JArray (case find (\<lambda>i. dec i = k) [0..<length xs] of
                    Some i \<Rightarrow> xs[i := v] | None \<Rightarrow> xs))"
| "set_prop j k v = Inl TypeError"

text \<open>
  \<^verbatim>\<open>Object.keys(value)\<close> for a truthy value: the property names of an object, the
  indices of an array or of a string, nothing for a number or a boolean.
\<close>

fun Object_keys :: "json \<Rightarrow> string list" where
  "Object_keys (JObject kvs) = map fst kvs"
| "Object_keys (JArray xs) = map dec [0..<length xs]"
| "Object_keys (JString s) = map dec [0..<length s]"
| "Object_keys v = []"

definition startsWith :: "string \<Rightarrow> string \<Rightarrow> bool" where
  "startsWith s p = (take (length p) s = p)"

subsection \<open>\<^verbatim>\<open>JSON.stringify(value, null, 2)\<close>\<close>

definition hex_char :: "nat \<Rightarrow> char" where
  "hex_char d = ''0123456789abcdef'' ! d"

definition quote_char :: "char \<Rightarrow> string" where
  "quote_char c =
     (if c = CHR 0x08 then [CHR 0x5C, CHR ''b'']
      else if c = CHR 0x09 then [CHR 0x5C, CHR ''t'']
      else if c = CHR 0x0A then [CHR 0x5C, CHR ''n'']
      else if c = CHR 0x0C then [CHR 0x5C, CHR ''f'']
      else if c = CHR 0x0D then [CHR 0x5C, CHR ''r'']
      else if c = CHR 0x22 then [CHR 0x5C, CHR 0x22]
      else if c = CHR 0x5C then [CHR 0x5C, CHR 0x5C]
      else if (of_char c :: nat) < 32
        then [CHR 0x5C, CHR ''u'', CHR ''0'', CHR ''0'',
              hex_char (of_char c div 16), hex_char (of_char c mod 16)]
      else [c])"

definition quote_json :: "string \<Rightarrow> string" where
  "quote_json s = CHR 0x22 # concat (map quote_char s) @ [CHR 0x22]"

fun join :: "string \<Rightarrow> string list \<Rightarrow> string" where
  "join sep [] = []"
| "join sep [x] = x"
| "join sep (x # y # ys) = x @ sep @ join sep (y # ys)"

definition indent :: "nat \<Rightarrow> string" where
  "indent n = replicate (2 * n) CHR '' ''"

fun serialize :: "nat \<Rightarrow> json \<Rightarrow> string" where
  "serialize n JNull = ''null''"
| "serialize n (JBool b) = (if b then ''true'' else ''false'')"
| "serialize n (JNumber t) = t"
| "serialize n (JString s) = quote_json s"
| "serialize n (JArray xs) =
     (if xs = [] then ''[]''
      else ''['' @ [CHR 0x0A] @ indent (Suc n)
        @ join ('','' @ [CHR 0x0A] @ indent (Suc n)) (map (serialize (Suc n)) xs)
        @ [CHR 0x0A] @ indent n @ '']'')"
| "serialize n (JObject kvs) =
     (if kvs = [] then ''{}''
      else ''{'' @ [CHR 0x0A] @ indent (Suc n)
        @ join ('','' @ [CHR 0x0A] @ indent (Suc n))
            (map (\<lambda>(k, v). quote_json k @ '': '' @ serialize (Suc n) v) kvs)
        @ [CHR 0x0A] @ indent n @ ''}'')"

definition JSON_stringify :: "json \<Rightarrow> string" where
  "JSON_stringify v = serialize 0 v"

subsection \<open>The manifest update of \<^verbatim>\<open>updatePackageJsonFile\<close>\<close>

definition INTERNAL_PREFIX :: string where
  "INTERNAL_PREFIX = ''@teamdiverst/fullcalendar-''"

definition depTypes :: "string list" where
  "depTypes = [''dependencies'', ''devDependencies'', ''peerDependencies'']"

text \<open>
  \<^verbatim>\<open>json[depType][dep] = `~${version}`\<close>: the nested object is changed in place,
  so the manifest holds the changed object under the same name.
\<close>

definition assign_dep :: "string \<Rightarrow> string \<Rightarrow> string \<Rightarrow> json \<Rightarrow> error + json" where
  "assign_dep version depType dep json =
     and_then (get_prop json depType) (\<lambda>deps.
       case deps of
         None \<Rightarrow> Inl TypeError
       | Some d \<Rightarrow> and_then (set_prop d dep (JString (CHR ''~'' # version)))
                     (\<lambda>d'. set_prop json depType d'))"

definition update_dep_type :: "string \<Rightarrow> string \<Rightarrow> json \<Rightarrow> error + json" where
  "update_dep_type version depType json =
     and_then (get_prop json depType) (\<lambda>deps.
       if truthy deps then
         forEach (Object_keys (the deps))
           (\<lambda>dep j. if startsWith dep INTERNAL_PREFIX
                     then assign_dep version depType dep j else Inr j) json
       else Inr json)"

text \<open>Lines 46 to 58: the changes made to the parsed manifest before it is written.\<close>

definition update_json :: "string \<Rightarrow> json \<Rightarrow> error + json" where
  "update_json version json =
     and_then (set_prop json ''version'' (JString version))
       (forEach depTypes (update_dep_type version))"

subsection \<open>The version grammar\<close>

text \<open>
  The script tests the version against a regular expression literal anchored at both
  ends. The literal is kept as a term; \<open>regex_test\<close> decides the match by
  derivatives, \<open>lang\<close> is the set of strings the expression denotes.
\<close>

datatype regex =
    Never
  | Empty
  | Class "char list"
  | Seq regex regex
  | Alt regex regex
  | Star regex

definition Plus :: "regex \<Rightarrow> regex" where
  "Plus r = Seq r (Star r)"

definition Opt :: "regex \<Rightarrow> regex" where
  "Opt r = Alt r Empty"

definition DIGIT :: regex where
  "DIGIT = Class ''0123456789''"

definition IDENT_CHAR :: regex where
  "IDENT_CHAR = Class (''abcdefghijklmnopqrstuvwxyz'' @ ''ABCDEFGHIJKLMNOPQRSTUVWXYZ''
                        @ ''0123456789'' @ ''-'')"

text \<open>
  \<^verbatim>\<open>/^(\d+)\.(\d+)\.(\d+)(?:-([a-zA-Z0-9-]+(?:\.[a-zA-Z0-9-]+)*))?$/\<close>
\<close>

definition SEMVER_RE :: regex where
  "SEMVER_RE =
     Seq (Plus DIGIT) (Seq (Class ''.'') (Seq (Plus DIGIT) (Seq (Class ''.'') (Seq (Plus DIGIT)
       (Opt (Seq (Class ''-'')
          (Seq (Plus IDENT_CHAR) (Star (Seq (Class ''.'') (Plus IDENT_CHAR))))))))))"

fun nullable :: "regex \<Rightarrow> bool" where
  "nullable Never = False"
| "nullable Empty = True"
| "nullable (Class cs) = False"
| "nullable (Seq r s) = (nullable r \<and> nullable s)"
| "nullable (Alt r s) = (nullable r \<or> nullable s)"
| "nullable (Star r) = True"

fun deriv :: "char \<Rightarrow> regex \<Rightarrow> regex" where
  "deriv c Never = Never"
| "deriv c Empty = Never"
| "deriv c (Class cs) = (if c \<in> set cs then Empty else Never)"
| "deriv c (Seq r s) =
     (if nullable r then Alt (Seq (deriv c r) s) (deriv c s) else Seq (deriv c r) s)"
| "deriv c (Alt r s) = Alt (deriv c r) (deriv c s)"
| "deriv c (Star r) = Seq (deriv c r) (Star r)"

definition regex_test :: "regex \<Rightarrow> string \<Rightarrow> bool" where
  "regex_test r s = nullable (foldl (\<lambda>r c. deriv c r) r s)"

inductive_set star :: "string set \<Rightarrow> string set" for A :: "string set" where
  star_empty: "[] \<in> star A"
| star_step: "u \<in> A \<Longrightarrow> v \<in> star A \<Longrightarrow> u @ v \<in> star A"

fun lang :: "regex \<Rightarrow> string set" where
  "lang Never = {}"
| "lang Empty = {[]}"
| "lang (Class cs) = {[c] | c. c \<in> set cs}"
| "lang (Seq r s) = {u @ v | u v. u \<in> lang r \<and> v \<in> lang s}"
| "lang (Alt r s) = lang r \<union> lang s"
| "lang (Star r) = star (lang r)"

text \<open>
  The grammar in the specification's words: three dot-separated runs of digits, then
  optionally a hyphen and a dot-separated sequence of non-empty segments of letters,
  digits and hyphens. A run of digits may start with zeros.
\<close>

definition numeric :: "string \<Rightarrow> bool" where
  "numeric s = (s \<noteq> [] \<and> (\<forall>c \<in> set s. c \<in> set ''0123456789''))"

definition segment :: "string \<Rightarrow> bool" where
  "segment s = (s \<noteq> [] \<and> (\<forall>c \<in> set s. c \<in> set (''abcdefghijklmnopqrstuvwxyz''
                  @ ''ABCDEFGHIJKLMNOPQRSTUVWXYZ'' @ ''0123456789'' @ ''-'')))"

definition semver_grammar :: "string \<Rightarrow> bool" where
  "semver_grammar s =
     (\<exists>a b c. numeric a \<and> numeric b \<and> numeric c \<and>
        (s = a @ ''.'' @ b @ ''.'' @ c \<or>
         (\<exists>segs. segs \<noteq> [] \<and> (\<forall>g \<in> set segs. segment g) \<and>
            s = a @ ''.'' @ b @ ''.'' @ c @ ''-'' @ join ''.'' segs)))"

subsection \<open>The file system and the version-control checkout\<close>

text \<open>
  An absolute path is the list of its components, so \<^verbatim>\<open>path.join(dir, name)\<close>
  appends a component and \<^verbatim>\<open>path.dirname\<close> drops the last one (the root is its
  own parent). A directory lists the names of its entries. Permissions are not
  modelled: a file that can be read can be written.
\<close>

datatype node = File string | Dir "string list"

type_synonym filesystem = "path \<Rightarrow> node option"

definition path_join :: "path \<Rightarrow> string \<Rightarrow> path" where
  "path_join dir name = dir @ [name]"

definition path_dirname :: "path \<Rightarrow> path" where
  "path_dirname p = butlast p"

definition existsSync :: "filesystem \<Rightarrow> path \<Rightarrow> bool" where
  "existsSync fs p = (fs p \<noteq> None)"

definition readFileSync :: "filesystem \<Rightarrow> path \<Rightarrow> error + string" where
  "readFileSync fs p =
     (case fs p of None \<Rightarrow> Inl (ENOENT p) | Some (Dir ns) \<Rightarrow> Inl (EISDIR p)
      | Some (File s) \<Rightarrow> Inr s)"

text \<open>The scripts only write files they have just read.\<close>

definition writeFileSync :: "path \<Rightarrow> string \<Rightarrow> filesystem \<Rightarrow> error + filesystem" where
  "writeFileSync p s fs =
     (case fs p of Some (Dir ns) \<Rightarrow> Inl (EISDIR p) | _ \<Rightarrow> Inr (fs(p \<mapsto> File s)))"

definition readdirSync :: "filesystem \<Rightarrow> path \<Rightarrow> error + string list" where
  "readdirSync fs p =
     (case fs p of None \<Rightarrow> Inl (ENOENT p) | Some (File s) \<Rightarrow> Inl (ENOTDIR p)
      | Some (Dir ns) \<Rightarrow> Inr ns)"

text \<open>\<^verbatim>\<open>fs.statSync(p).isDirectory()\<close>\<close>

definition isDirectory :: "filesystem \<Rightarrow> path \<Rightarrow> error + bool" where
  "isDirectory fs p =
     (case fs p of None \<Rightarrow> Inl (ENOENT p) | Some (File s) \<Rightarrow> Inr False
      | Some (Dir ns) \<Rightarrow> Inr True)"

function findProjectRoot :: "filesystem \<Rightarrow> path \<Rightarrow> error + path" where
  "findProjectRoot fs currentDir =
     (if currentDir \<noteq> path_dirname currentDir then
        if existsSync fs (path_join currentDir ''package.json'') \<and>
           existsSync fs (path_join currentDir ''packages'')
        then Inr currentDir
        else findProjectRoot fs (path_dirname currentDir)
      else Inl NoProjectRoot)"
  by pat_completeness auto
termination
proof (relation "measure (\<lambda>(fs, p). length p)", goal_cases)
  case 1
  show ?case by simp
next
  case (2 fs currentDir)
  then show ?case by (cases currentDir) (auto simp: path_dirname_def)
qed

declare findProjectRoot.simps [simp del]

text \<open>
  What a run does, in order: files written, commands given to the shell, lines printed
  to the output and to the error stream, and the exception the handler reported.
\<close>

datatype event =
    Wrote path string
  | Ran string
  | Printed string
  | PrintedErr string
  | Caught error

text \<open>
  The checkout is the state \<open>'g\<close> of the version-control tool, which the script only
  reaches through \<^verbatim>\<open>execSync\<close>. A shell takes the command line, the files and
  that state, and gives the command's output (\<open>None\<close> when it exits non-zero, which
  makes \<^verbatim>\<open>execSync\<close> throw) and the new state. The five git commands of the
  script leave the files of the working tree as they are.
\<close>

type_synonym 'g shell = "string \<Rightarrow> filesystem \<Rightarrow> 'g \<Rightarrow> string option \<times> 'g"

record 'g world =
  files :: filesystem
  vcs :: 'g
  trace :: "event list"

text \<open>
  What the script takes from its surroundings: the JSON parser of the engine
  (\<open>None\<close> for a SyntaxError), the shell, and the directory the script file is in.
\<close>

record 'g env =
  JSON_parse :: "string \<Rightarrow> json option"
  shell :: "'g shell"
  script_dirname :: path

text \<open>
  A step returns a value, throws, or ends the process with an exit code; the world
  it leaves behind is kept in each case.
\<close>

datatype 'a outcome = Return 'a | Throw error | Exit nat

type_synonym ('g, 'a) step = "'g world \<Rightarrow> 'a outcome \<times> 'g world"

definition ret :: "'a \<Rightarrow> ('g, 'a) step" where
  "ret x w = (Return x, w)"

definition lift :: "error + 'a \<Rightarrow> ('g, 'a) step" where
  "lift r w = (case r of Inl e \<Rightarrow> (Throw e, w) | Inr x \<Rightarrow> (Return x, w))"

definition then_do :: "('g, 'a) step \<Rightarrow> ('a \<Rightarrow> ('g, 'b) step) \<Rightarrow> ('g, 'b) step" where
  "then_do m f w =
     (case m w of
        (Return x, w') \<Rightarrow> f x w'
      | (Throw e, w') \<Rightarrow> (Throw e, w')
      | (Exit c, w') \<Rightarrow> (Exit c, w'))"

definition emit :: "event \<Rightarrow> ('g, unit) step" where
  "emit e w = (Return (), w\<lparr>trace := trace w @ [e]\<rparr>)"

definition process_exit :: "nat \<Rightarrow> ('g, 'a) step" where
  "process_exit c w = (Exit c, w)"

definition readFile :: "path \<Rightarrow> ('g, string) step" where
  "readFile p w = lift (readFileSync (files w) p) w"

definition writeFile :: "path \<Rightarrow> string \<Rightarrow> ('g, unit) step" where
  "writeFile p s w =
     (case writeFileSync p s (files w) of
        Inl e \<Rightarrow> (Throw e, w)
      | Inr fs' \<Rightarrow> (Return (), w\<lparr>files := fs', trace := trace w @ [Wrote p s]\<rparr>))"

definition parse :: "'g env \<Rightarrow> string \<Rightarrow> ('g, json) step" where
  "parse env s = lift (case JSON_parse env s of None \<Rightarrow> Inl SyntaxError | Some j \<Rightarrow> Inr j)"

definition execSync :: "'g env \<Rightarrow> string \<Rightarrow> ('g, string) step" where
  "execSync env cmd w =
     (case shell env cmd (files w) (vcs w) of
        (r, g') \<Rightarrow>
          ((case r of None \<Rightarrow> Throw (CommandFailed cmd) | Some out \<Rightarrow> Return out),
           w\<lparr>vcs := g', trace := trace w @ [Ran cmd]\<rparr>))"

fun forEachW :: "'a list \<Rightarrow> ('a \<Rightarrow> ('g, unit) step) \<Rightarrow> ('g, unit) step" where
  "forEachW [] f = ret ()"
| "forEachW (x # xs) f = then_do (f x) (\<lambda>_. forEachW xs f)"

text \<open>\<^verbatim>\<open>String.prototype.trim\<close> on the ASCII white space a command prints.\<close>

definition is_space :: "char \<Rightarrow> bool" where
  "is_space c = (c \<in> set [CHR 0x09, CHR 0x0A, CHR 0x0B, CHR 0x0C, CHR 0x0D, CHR 0x20])"

definition trim :: "string \<Rightarrow> string" where
  "trim s = rev (dropWhile is_space (rev (dropWhile is_space s)))"

text \<open>
  The text a template literal puts in for a value: \<^verbatim>\<open>`${x}`\<close>. An array joins
  its elements with commas, \<^verbatim>\<open>null\<close> elements as empty text.
\<close>

fun String_of :: "json \<Rightarrow> string" where
  "String_of JNull = ''null''"
| "String_of (JBool b) = (if b then ''true'' else ''false'')"
| "String_of (JNumber t) = t"
| "String_of (JString s) = s"
| "String_of (JArray xs) = join '','' (map (\<lambda>x. if x = JNull then [] else String_of x) xs)"
| "String_of (JObject kvs) = ''[object Object]''"

definition template :: "json option \<Rightarrow> string" where
  "template v = (case v of None \<Rightarrow> ''undefined'' | Some j \<Rightarrow> String_of j)"

definition unlines :: "string list \<Rightarrow> string" where
  "unlines ls = concat (map (\<lambda>l. l @ [CHR 0x0A]) ls)"

subsection \<open>\<^verbatim>\<open>src/scripts/update-version.js\<close>\<close>

definition HELP_TEXT :: string where
  \<open>HELP_TEXT = unlines [
    [],
    ''Script to update the version of Fullcalendar packages'',
    '''',
    ''It takes a version as an argument and:'',
    ''1. Updates version field in root package.json and all packages/[name]/package.json'',
    ''2. Updates all @teamdiverst/fullcalendar-dependencies to the new version'',
    ''3. Creates a git commit for the version update'',
    ''4. Creates git tag "v<version>"'',
    '''',
    ''Usage:'',
    '' scripts/update-version.js <version>'',
    '' or'',
    '' npm run update-version <version>'',
    '''',
    ''Note: After updating the version, remember to run 'npm install' to install'',
    ''the updated dependencies and update the lock file with the new version.''
  ]\<close>

text \<open>
  Lines 65 to 85 of \<open>main\<close>: the decision taken on the arguments, before anything is
  printed. \<^verbatim>\<open>version\<close> is the first argument, \<^verbatim>\<open>undefined\<close> when there
  is none.
\<close>

datatype args_result = ShowHelp | NoVersion | InvalidVersion string | Proceed string

definition check_args :: "string list \<Rightarrow> args_result" where
  "check_args args =
     (let version = (case args of [] \<Rightarrow> None | a # rest \<Rightarrow> Some a) in
      if ''-h'' \<in> set args \<or> ''--help'' \<in> set args then ShowHelp
      else if version = None \<or> version = Some [] then NoVersion
      else if \<not> regex_test SEMVER_RE (the version) then InvalidVersion (the version)
      else Proceed (the version))"

definition updatePackageJsonFile :: "'g env \<Rightarrow> path \<Rightarrow> string \<Rightarrow> string \<Rightarrow> ('g, unit) step" where
  "updatePackageJsonFile env filePath packageName version =
     then_do (readFile filePath) (\<lambda>text.
     then_do (parse env text) (\<lambda>json.
     then_do (lift (update_json version json)) (\<lambda>json'.
     then_do (writeFile filePath (JSON_stringify json' @ [CHR 0x0A])) (\<lambda>_.
     emit (Printed (''Updated package '' @ packageName))))))"

text \<open>
  Lines 106 to 114: the root manifest. The step returns \<^verbatim>\<open>oldVersion\<close>, which
  starts as \<^verbatim>\<open>null\<close>.
\<close>

definition update_root :: "'g env \<Rightarrow> path \<Rightarrow> string \<Rightarrow> ('g, json option) step" where
  "update_root env projectRoot version w =
     (let rootPackageFile = path_join projectRoot ''package.json'' in
      if existsSync (files w) rootPackageFile then
        (then_do (readFile rootPackageFile) (\<lambda>text.
         then_do (parse env text) (\<lambda>rootData.
         then_do (lift (get_prop rootData ''version'')) (\<lambda>oldVersion.
         then_do (lift (set_prop rootData ''version'' (JString version))) (\<lambda>rootData'.
         then_do (writeFile rootPackageFile (JSON_stringify rootData' @ [CHR 0x0A])) (\<lambda>_.
         then_do (emit (Printed (''Updated root package.json to '' @ version))) (\<lambda>_.
         ret oldVersion))))))) w
      else ret (Some JNull) w)"

text \<open>
  Lines 117 to 122: the entries of \<^verbatim>\<open>packages/\<close> that are directories, then
  the bundle package.
\<close>

fun filter_dirs :: "filesystem \<Rightarrow> path \<Rightarrow> string list \<Rightarrow> error + string list" where
  "filter_dirs fs packagesDir [] = Inr []"
| "filter_dirs fs packagesDir (dir # rest) =
     and_then (isDirectory fs (path_join packagesDir dir)) (\<lambda>b.
     and_then (filter_dirs fs packagesDir rest) (\<lambda>ds.
       Inr (if b then dir # ds else ds)))"

definition find_packages :: "filesystem \<Rightarrow> path \<Rightarrow> error + (string \<times> path) list" where
  "find_packages fs projectRoot =
     (let packagesDir = path_join projectRoot ''packages'' in
      and_then (readdirSync fs packagesDir) (\<lambda>entries.
      and_then (filter_dirs fs packagesDir entries) (\<lambda>dirs.
        Inr (map (\<lambda>pkg. (pkg, path_join packagesDir pkg)) dirs
             @ [(''bundle'', path_join projectRoot ''bundle'')]))))"

text \<open>Lines 125 to 130.\<close>

definition update_packages :: "'g env \<Rightarrow> string \<Rightarrow> (string \<times> path) list \<Rightarrow> ('g, unit) step" where
  "update_packages env version packages =
     forEachW packages (\<lambda>(name, dir) w.
       let packageFile = path_join dir ''package.json'' in
       if existsSync (files w) packageFile
       then updatePackageJsonFile env packageFile name version w
       else ret () w)"

text \<open>Lines 132 to 141: staging, the commit and the tag.\<close>

definition commit_and_tag :: "'g env \<Rightarrow> json option \<Rightarrow> string \<Rightarrow> string \<Rightarrow> ('g, unit) step" where
  \<open>commit_and_tag env oldVersion version tag =
     then_do (execSync env
        ''git add package.json packages/*/package.json bundle/package.json'') (\<lambda>_.
     then_do (execSync env (''git commit -m "Updated version from '' @ template oldVersion
        @ '' to '' @ version @ ''"'')) (\<lambda>_.
     then_do (emit (Printed ''Committed changes on affected files'')) (\<lambda>_.
     then_do (execSync env (''git tag '' @ tag)) (\<lambda>_.
     then_do (emit (Printed (''Created git tag '' @ tag))) (\<lambda>_.
     emit (Printed ([CHR 0x0A] @ ''Successfully updated all packages from ''
        @ template oldVersion @ '' to '' @ version)))))))\<close>

text \<open>Lines 105 to 141: the manifests, the commit and the tag, once both checks passed.\<close>

definition update_and_tag :: "'g env \<Rightarrow> path \<Rightarrow> string \<Rightarrow> string \<Rightarrow> ('g, unit) step" where
  "update_and_tag env projectRoot version tag =
     then_do (update_root env projectRoot version) (\<lambda>oldVersion.
     then_do (\<lambda>w. lift (find_packages (files w) projectRoot) w) (\<lambda>packages.
     then_do (update_packages env version packages) (\<lambda>_.
     commit_and_tag env oldVersion version tag)))"

text \<open>Lines 88 to 141: the body of the \<^verbatim>\<open>try\<close> block.\<close>

definition try_block :: "'g env \<Rightarrow> string \<Rightarrow> ('g, unit) step" where
  \<open>try_block env version =
     then_do (\<lambda>w. lift (findProjectRoot (files w) (script_dirname env)) w) (\<lambda>projectRoot.
     let tag = ''v'' @ version in
     then_do (execSync env ''git status --porcelain'') (\<lambda>status.
     if trim status \<noteq> [] then
       then_do (emit (PrintedErr ''Error: There are uncommitted changes in the repository'')) (\<lambda>_.
       then_do (emit (PrintedErr
          ''Please commit or stash your changes before running this script'')) (\<lambda>_.
       process_exit 1))
     else
     then_do (execSync env (''git tag -l '' @ tag)) (\<lambda>listed.
     if trim listed \<noteq> [] then
       then_do (emit (PrintedErr (''Error: Git tag "'' @ tag @ ''" already exists''))) (\<lambda>_.
       process_exit 1)
     else update_and_tag env projectRoot version tag)))\<close>

text \<open>
  \<open>main\<close>: the exit code and the world the process leaves. \<^verbatim>\<open>process.exit()\<close>
  without a code and a normal end both give exit code 0; the \<^verbatim>\<open>catch\<close>
  handler prints the exception to the error stream and exits with 1.
\<close>

definition main :: "'g env \<Rightarrow> string list \<Rightarrow> 'g world \<Rightarrow> nat \<times> 'g world" where
  \<open>main env args w =
     (case check_args args of
        ShowHelp \<Rightarrow> (0, w\<lparr>trace := trace w @ [Printed HELP_TEXT]\<rparr>)
      | NoVersion \<Rightarrow>
          (1, w\<lparr>trace := trace w @
                 [PrintedErr ''Error: No version provided'', PrintedErr HELP_TEXT]\<rparr>)
      | InvalidVersion version \<Rightarrow>
          (1, w\<lparr>trace := trace w @
                 [PrintedErr (''Error: Invalid SemVer format "'' @ version @ ''"''),
                  PrintedErr ''Expected format: X.Y.Z-pre-release.build'',
                  PrintedErr ''Examples: 6.1.19, 6.1.19-alpha, 6.1.19-a11y.1'']\<rparr>)
      | Proceed version \<Rightarrow>
          (case try_block env version w of
             (Return u, w') \<Rightarrow> (0, w')
           | (Throw e, w') \<Rightarrow> (1, w'\<lparr>trace := trace w' @ [Caught e]\<rparr>)
           | (Exit c, w') \<Rightarrow> (c, w')))\<close>

subsection \<open>The earlier variant, \<^verbatim>\<open>src/unnamed/part_000\<close>\<close>

text \<open>
  This variant has a shorter help text, no check of the working tree or of the tag,
  no bundle package, and the manifest update written out inside the loop (lines 84 to
  102, the same statements as \<^verbatim>\<open>updatePackageJsonFile\<close>).
\<close>

definition HELP_TEXT_part_000 :: string where
  \<open>HELP_TEXT_part_000 = unlines [
    [],
    ''Script to update the version of Fullcalendar packages'',
    '''',
    ''It takes a version as an argument and:'',
    ''1. Updates version field in root package.json and all packages/[name]/package.json'',
    ''2. Updates all @teamdiverst/fullcalendar-dependencies to the new version'',
    ''3. Creates a git commit for the version update'',
    ''4. Creates git tag "v<version>"'',
    '''',
    ''Usage:'',
    '' scripts/update-version.js <version>'',
    '' or'',
    '' npm run update-version <version>''
  ]\<close>

definition check_args_part_000 :: "string list \<Rightarrow> args_result" where
  "check_args_part_000 args =
     (let version = (case args of [] \<Rightarrow> None | a # rest \<Rightarrow> Some a) in
      if ''-h'' \<in> set args \<or> ''--help'' \<in> set args then ShowHelp
      else if version = None \<or> version = Some [] then NoVersion
      else if \<not> regex_test SEMVER_RE (the version) then InvalidVersion (the version)
      else Proceed (the version))"

definition update_packages_part_000 ::
  "'g env \<Rightarrow> string \<Rightarrow> path \<Rightarrow> string list \<Rightarrow> ('g, unit) step" where
  "update_packages_part_000 env version packagesDir packages =
     forEachW packages (\<lambda>pkg w.
       let packageFile = path_join (path_join packagesDir pkg) ''package.json'' in
       if existsSync (files w) packageFile then
         (then_do (readFile packageFile) (\<lambda>text.
          then_do (parse env text) (\<lambda>json.
          then_do (lift (update_json version json)) (\<lambda>json'.
          then_do (writeFile packageFile (JSON_stringify json' @ [CHR 0x0A])) (\<lambda>_.
          emit (Printed (''Updated package '' @ pkg))))))) w
       else ret () w)"

definition try_block_part_000 :: "'g env \<Rightarrow> string \<Rightarrow> ('g, unit) step" where
  \<open>try_block_part_000 env version =
     then_do (\<lambda>w. lift (findProjectRoot (files w) (script_dirname env)) w) (\<lambda>projectRoot.
     then_do (update_root env projectRoot version) (\<lambda>oldVersion.
     let packagesDir = path_join projectRoot ''packages'' in
     then_do (\<lambda>w. lift (and_then (readdirSync (files w) packagesDir)
                           (filter_dirs (files w) packagesDir)) w) (\<lambda>packages.
     then_do (update_packages_part_000 env version packagesDir packages) (\<lambda>_.
     then_do (execSync env ''git add package.json packages/*/package.json'') (\<lambda>_.
     then_do (execSync env (''git commit -m "Updated version from '' @ template oldVersion
        @ '' to '' @ version @ ''"'')) (\<lambda>_.
     then_do (emit (Printed ''Committed changes on affected files'')) (\<lambda>_.
     let tag = ''v'' @ version in
     then_do (execSync env (''git tag '' @ tag)) (\<lambda>_.
     then_do (emit (Printed (''Created git tag '' @ tag))) (\<lambda>_.
     emit (Printed ([CHR 0x0A] @ ''Successfully updated all packages from ''
        @ template oldVersion @ '' to '' @ version)))))))))))\<close>

definition main_part_000 :: "'g env \<Rightarrow> string list \<Rightarrow> 'g world \<Rightarrow> nat \<times> 'g world" where
  \<open>main_part_000 env args w =
     (case check_args_part_000 args of
        ShowHelp \<Rightarrow> (0, w\<lparr>trace := trace w @ [Printed HELP_TEXT_part_000]\<rparr>)
      | NoVersion \<Rightarrow>
          (1, w\<lparr>trace := trace w @
                 [PrintedErr ''Error: No version provided'', PrintedErr HELP_TEXT_part_000]\<rparr>)
      | InvalidVersion version \<Rightarrow>
          (1, w\<lparr>trace := trace w @
                 [PrintedErr (''Error: Invalid SemVer format "'' @ version @ ''"''),
                  PrintedErr ''Expected format: X.Y.Z-pre-release.build'',
                  PrintedErr ''Examples: 6.1.19, 6.1.19-alpha, 6.1.19-a11y.1'']\<rparr>)
      | Proceed version \<Rightarrow>
          (case try_block_part_000 env version w of
             (Return u, w') \<Rightarrow> (0, w')
           | (Throw e, w') \<Rightarrow> (1, w'\<lparr>trace := trace w' @ [Caught e]\<rparr>)
           | (Exit c, w') \<Rightarrow> (c, w')))\<close>

section \<open>Notions the properties are stated with\<close>

text \<open>
  What a run did is read off its trace: the files it wrote and the commands it ran.
  The manifests of a workspace, the answers of the two queries, and the closed form of
  the dependency rewrite are written down here as the specification words them; the
  properties below relate them to the code.
\<close>

fun written :: "event list \<Rightarrow> (path \<times> string) list" where
  "written [] = []"
| "written (Wrote p s # es) = (p, s) # written es"
| "written (e # es) = written es"

fun commands :: "event list \<Rightarrow> string list" where
  "commands [] = []"
| "commands (Ran c # es) = c # commands es"
| "commands (e # es) = commands es"

definition new_events :: "'g world \<Rightarrow> 'g world \<Rightarrow> event list" where
  "new_events w w' = drop (length (trace w)) (trace w')"




definition with_internal_ranges :: "string \<Rightarrow> json \<Rightarrow> json" where
  "with_internal_ranges version deps =
     (case deps of
        JObject ds \<Rightarrow>
          JObject (map (\<lambda>(k, x). (k, if startsWith k INTERNAL_PREFIX
                                       then JString (CHR ''~'' # version) else x)) ds)
      | _ \<Rightarrow> deps)"




definition same_shape :: "filesystem \<Rightarrow> filesystem \<Rightarrow> bool" where
  "same_shape fs fs' =
     (\<forall>p. case fs p of None \<Rightarrow> fs' p = None
          | Some (Dir ns) \<Rightarrow> fs' p = Some (Dir ns)
          | Some (File s) \<Rightarrow> (\<exists>s'. fs' p = Some (File s')))"

definition effects :: "'g world \<Rightarrow> 'g world \<Rightarrow> event list \<Rightarrow> bool" where
  "effects w w' es =
     (trace w' = trace w @ es \<and> same_shape (files w) (files w') \<and>
      (\<forall>p. p \<notin> fst ` set (written es) \<longrightarrow> files w' p = files w p) \<and>
      (\<forall>p \<in> fst ` set (written es). \<exists>s. (p, s) \<in> set (written es) \<and> files w' p = Some (File s)))"



definition never_exits :: "('g, 'a) step \<Rightarrow> bool" where
  "never_exits m = (\<forall>w c w'. m w \<noteq> (Exit c, w'))"

section \<open>An example workspace\<close>

text \<open>
  A small workspace on which the properties are tried: a root manifest that names an
  internal package, one package, a plain file and an empty directory under
  \<^verbatim>\<open>packages/\<close>, and the bundle package. Its parser knows the three manifests;
  its shell answers the two queries from a flag and a list of tags and lets every
  other command succeed.
\<close>

definition demo_root_doc :: json where
  "demo_root_doc = JObject [
     (''name'', JString ''fullcalendar-monorepo''),
     (''version'', JString ''1.0.0''),
     (''devDependencies'', JObject [(''@teamdiverst/fullcalendar-core'', JString ''~1.0.0'')])]"

definition demo_core_doc :: json where
  "demo_core_doc = JObject [
     (''name'', JString ''@teamdiverst/fullcalendar-core''),
     (''version'', JString ''1.0.0''),
     (''dependencies'', JObject [(''preact'', JString ''~10.12.1'')])]"

definition demo_bundle_doc :: json where
  "demo_bundle_doc = JObject [
     (''name'', JString ''fullcalendar''),
     (''version'', JString ''1.0.0''),
     (''dependencies'', JObject [(''@teamdiverst/fullcalendar-core'', JString ''~1.0.0''),
                                 (''preact'', JString ''~10.12.1'')])]"

definition text_of :: "json \<Rightarrow> string" where
  "text_of d = JSON_stringify d @ [CHR 0x0A]"

definition demo_parse :: "string \<Rightarrow> json option" where
  "demo_parse s =
     (if s = text_of demo_root_doc then Some demo_root_doc
      else if s = text_of demo_core_doc then Some demo_core_doc
      else if s = text_of demo_bundle_doc then Some demo_bundle_doc
      else None)"

definition demo_files :: filesystem where
  "demo_files = Map.empty(
     [''repo''] \<mapsto> Dir [''package.json'', ''packages'', ''bundle'', ''scripts''],
     [''repo'', ''package.json''] \<mapsto> File (text_of demo_root_doc),
     [''repo'', ''packages''] \<mapsto> Dir [''core'', ''README.md'', ''docs''],
     [''repo'', ''packages'', ''core''] \<mapsto> Dir [''package.json''],
     [''repo'', ''packages'', ''core'', ''package.json''] \<mapsto> File (text_of demo_core_doc),
     [''repo'', ''packages'', ''README.md''] \<mapsto> File ''packages'',
     [''repo'', ''packages'', ''docs''] \<mapsto> Dir [],
     [''repo'', ''bundle''] \<mapsto> Dir [''package.json''],
     [''repo'', ''bundle'', ''package.json''] \<mapsto> File (text_of demo_bundle_doc),
     [''repo'', ''scripts''] \<mapsto> Dir [''update-version.js''])"

text \<open>A checkout reduced to what the two queries ask: is the tree dirty, which tags exist.\<close>

definition demo_shell :: "(bool \<times> string list) shell" where
  "demo_shell cmd fs g =
     (if cmd = ''git status --porcelain'' then (Some (if fst g then '' M README.md'' @ [CHR 0x0A] else []), g)
      else if take 11 cmd = ''git tag -l '' then
        (Some (if drop 11 cmd \<in> set (snd g) then drop 11 cmd @ [CHR 0x0A] else []), g)
      else if take 8 cmd = ''git tag '' then
        (if drop 8 cmd \<in> set (snd g) then (None, g) else (Some [], (fst g, snd g @ [drop 8 cmd])))
      else (Some [], g))"

definition demo_env :: "(bool \<times> string list) env" where
  "demo_env = \<lparr>JSON_parse = demo_parse, shell = demo_shell, script_dirname = [''repo'', ''scripts'']\<rparr>"

definition demo_world :: "(bool \<times> string list) world" where
  "demo_world = \<lparr>files = demo_files, vcs = (False, []), trace = []\<rparr>"

section \<open>A checkout under git\<close>

text \<open>
  A checkout as git and the shell treat it for the five command lines of the script,
  run in the top directory of the working tree: the committed content of the tracked
  files, the staged content, and the tags. Paths of tracked files are relative to the
  top directory. There are no ignore rules, and no file is deleted or renamed.
\<close>

record checkout =
  toplevel :: path
  head_files :: "(path \<times> string) list"
  index_files :: "(path \<times> string) list"
  tag_names :: "string list"

text \<open>The files below a directory, to a given depth, leaving out \<^verbatim>\<open>.git\<close>.\<close>

fun files_under :: "nat \<Rightarrow> filesystem \<Rightarrow> path \<Rightarrow> path list" where
  "files_under 0 fs p = []"
| "files_under (Suc n) fs p =
     (case fs p of
        None \<Rightarrow> []
      | Some (File s) \<Rightarrow> [p]
      | Some (Dir ns) \<Rightarrow>
          concat (map (\<lambda>e. files_under n fs (p @ [e])) (filter (\<lambda>e. e \<noteq> ''.git'') ns)))"

definition worktree_files :: "filesystem \<Rightarrow> path \<Rightarrow> path list" where
  "worktree_files fs base = map (drop (length base)) (files_under 32 fs base)"

definition show_path :: "path \<Rightarrow> string" where
  "show_path p = join ''/'' p"

text \<open>
  \<^verbatim>\<open>git status --porcelain\<close>: one line for each tracked file whose staged content
  differs from the committed one or whose content in the working tree differs from
  the staged one, and one for each file that is not tracked.
\<close>

definition status_lines :: "filesystem \<Rightarrow> checkout \<Rightarrow> string list" where
  "status_lines fs c =
     [(if map_of (index_files c) p \<noteq> map_of (head_files c) p then ''M'' else '' '')
        @ (if fs (toplevel c @ p) \<noteq> map_option File (map_of (index_files c) p) then ''M'' else '' '')
        @ '' '' @ show_path p.
        p \<leftarrow> remdups (map fst (head_files c) @ map fst (index_files c)),
        map_of (index_files c) p \<noteq> map_of (head_files c) p \<or>
        fs (toplevel c @ p) \<noteq> map_option File (map_of (index_files c) p)]
     @ [''?? '' @ show_path p.
        p \<leftarrow> worktree_files fs (toplevel c), map_of (index_files c) p = None]"

text \<open>
  The words the shell puts for \<^verbatim>\<open>packages/*/package.json\<close>: one for each entry
  of \<^verbatim>\<open>packages\<close> that has the file, but none for an entry whose name starts with
  a period, which \<^verbatim>\<open>*\<close> does not match.
\<close>

definition glob_packages :: "filesystem \<Rightarrow> path \<Rightarrow> path list" where
  "glob_packages fs base =
     [[''packages'', d, ''package.json''].
        d \<leftarrow> (case fs (base @ [''packages'']) of Some (Dir ns) \<Rightarrow> ns | _ \<Rightarrow> []),
        take 1 d \<noteq> ''.'',
        fs (base @ [''packages'', d, ''package.json'']) \<noteq> None]"

text \<open>\<^verbatim>\<open>git add\<close> of one existing file; a path that names nothing is fatal.\<close>

fun stage :: "filesystem \<Rightarrow> path \<Rightarrow> path list \<Rightarrow> (path \<times> string) list
    \<Rightarrow> (path \<times> string) list option" where
  "stage fs base [] idx = Some idx"
| "stage fs base (p # ps) idx =
     (case fs (base @ p) of
        Some (File s) \<Rightarrow>
          stage fs base ps (if p \<in> fst ` set idx
                           then map (\<lambda>(q, t). if q = p then (q, s) else (q, t)) idx
                           else idx @ [(p, s)])
      | _ \<Rightarrow> None)"

definition same_content :: "(path \<times> string) list \<Rightarrow> (path \<times> string) list \<Rightarrow> bool" where
  "same_content a b = (\<forall>p \<in> set (map fst a @ map fst b). map_of a p = map_of b p)"

text \<open>
  The shell for the command lines of the script. When the pattern matches nothing the
  shell hands it on as it is and git matches it against the tracked paths itself;
  that case, and any other command line, is left out here and counts as a failure.
  A commit with nothing staged fails, as does a tag that exists.
\<close>

definition git_shell :: "checkout shell" where
  "git_shell cmd fs c =
     (if cmd = ''git status --porcelain'' then (Some (unlines (status_lines fs c)), c)
      else if take 11 cmd = ''git tag -l '' then
        (Some (if drop 11 cmd \<in> set (tag_names c) then unlines [drop 11 cmd] else []), c)
      else if cmd = ''git add package.json packages/*/package.json bundle/package.json'' then
        (if glob_packages fs (toplevel c) = [] then (None, c)
         else case stage fs (toplevel c)
                ([[''package.json'']] @ glob_packages fs (toplevel c)
                  @ [[''bundle'', ''package.json'']]) (index_files c) of
                None \<Rightarrow> (None, c)
              | Some idx \<Rightarrow> (Some [], c\<lparr>index_files := idx\<rparr>))
      else if take 14 cmd = ''git commit -m '' then
        (if same_content (index_files c) (head_files c) then (None, c)
         else (Some [], c\<lparr>head_files := index_files c\<rparr>))
      else if take 8 cmd = ''git tag '' then
        (if drop 8 cmd \<in> set (tag_names c) then (None, c)
         else (Some [], c\<lparr>tag_names := tag_names c @ [drop 8 cmd]\<rparr>))
      else (None, c))"

text \<open>A checkout in which every file is committed as it is and no tag exists.\<close>

definition committed :: "filesystem \<Rightarrow> path \<Rightarrow> checkout" where
  "committed fs base =
     (let tracked = [(p, s). p \<leftarrow> worktree_files fs base,
                       s \<leftarrow> (case fs (base @ p) of Some (File s) \<Rightarrow> [s] | _ \<Rightarrow> [])]
      in \<lparr>toplevel = base, head_files = tracked, index_files = tracked, tag_names = []\<rparr>)"

definition git_env :: "checkout env" where
  "git_env = \<lparr>JSON_parse = demo_parse, shell = git_shell, script_dirname = [''repo'', ''scripts'']\<rparr>"

definition plain_checkout :: "checkout world" where
  "plain_checkout = \<lparr>files = demo_files, vcs = committed demo_files [''repo''], trace = []\<rparr>"

text \<open>The same workspace with one more package, in a directory whose name starts with a period.\<close>

definition hidden_files :: filesystem where
  "hidden_files = demo_files(
     [''repo'', ''packages''] \<mapsto> Dir [''.tools'', ''core'', ''README.md'', ''docs''],
     [''repo'', ''packages'', ''.tools''] \<mapsto> Dir [''package.json''],
     [''repo'', ''packages'', ''.tools'', ''package.json''] \<mapsto> File (text_of demo_core_doc))"

definition hidden_checkout :: "checkout world" where
  "hidden_checkout = \<lparr>files = hidden_files, vcs = committed hidden_files [''repo''], trace = []\<rparr>"

section \<open>Properties\<close>

subsection \<open>The manifest update\<close>

lemma and_then_Inr [simp]: "and_then (Inr x) f = f x"
  by (simp add: and_then_def)

lemma and_then_Inl [simp]: "and_then (Inl e) f = Inl e"
  by (simp add: and_then_def)

lemma dec_digits: "dec n \<noteq> [] \<and> hd (dec n) \<in> set ''0123456789''"
proof (induction n rule: dec.induct)
  case (1 n)
  show ?case
  proof (cases "n < 10")
    case True
    then have "n \<in> {0,1,2,3,4,5,6,7,8,9}" by auto
    then show ?thesis
      by (subst dec.simps, subst dec.simps) (auto simp: digit_char_def)
  next
    case False
    with 1 show ?thesis
      by (subst dec.simps, subst dec.simps) auto
  qed
qed

lemma dec_not_internal: "\<not> startsWith (dec n) INTERNAL_PREFIX"
proof -
  obtain c cs where "dec n = c # cs" and "c \<in> set ''0123456789''"
    using dec_digits [of n] by (cases "dec n") auto
  then show ?thesis
    by (auto simp: startsWith_def INTERNAL_PREFIX_def)
qed

lemma forEach_skip:
  "(\<And>x. x \<in> set xs \<Longrightarrow> f x s = Inr s) \<Longrightarrow> forEach xs f s = Inr s"
  by (induction xs) auto

lemma map_fst_obj_set:
  "map fst (obj_set k v kvs) = (if k \<in> fst ` set kvs then map fst kvs else map fst kvs @ [k])"
  by (auto simp: obj_set_def case_prod_unfold intro!: map_idI)

lemma map_of_obj_set:
  "map_of (obj_set k v kvs) = (map_of kvs)(k \<mapsto> v)"
proof (rule ext)
  fix k'
  have a: "map_of (map (\<lambda>(k', v'). if k' = k then (k', v) else (k', v')) kvs) k'
        = (if k' = k then map_option (\<lambda>_. v) (map_of kvs k') else map_of kvs k')"
    by (induction kvs) auto
  show "map_of (obj_set k v kvs) k' = ((map_of kvs)(k \<mapsto> v)) k'"
  proof (cases "k \<in> fst ` set kvs")
    case True
    then obtain x where "map_of kvs k = Some x"
      by (metis map_of_eq_None_iff not_Some_eq)
    with True show ?thesis by (auto simp: obj_set_def a)
  next
    case False
    then have "map_of kvs k = None" by (simp add: map_of_eq_None_iff)
    with False show ?thesis by (auto simp: obj_set_def map_add_def split: option.splits)
  qed
qed

text \<open>One pass of the inner loop over names of the dependency object.\<close>

lemma dep_loop:
  assumes "map_of kvs t = Some (JObject ds)" and "set ks \<subseteq> fst ` set ds"
  shows "\<exists>kvs'. forEach ks (\<lambda>dep j. if startsWith dep INTERNAL_PREFIX
                    then assign_dep version t dep j else Inr j) (JObject kvs) = Inr (JObject kvs')
           \<and> map fst kvs' = map fst kvs
           \<and> map_of kvs' = (map_of kvs)(t \<mapsto> JObject (map (\<lambda>(k, x).
                (k, if k \<in> set ks \<and> startsWith k INTERNAL_PREFIX
                    then JString (CHR ''~'' # version) else x)) ds))"
  using assms
proof (induction ks arbitrary: kvs ds)
  case Nil
  then show ?case
    by (auto simp: case_prod_unfold fun_upd_idem_iff)
next
  case (Cons a ks)
  have t_in: "t \<in> fst ` set kvs"
    using Cons.prems(1) by (metis map_of_eq_None_iff option.distinct(1))
  show ?case
  proof (cases "startsWith a INTERNAL_PREFIX")
    case False
    have "(\<lambda>(k, x). (k, if k \<in> set (a # ks) \<and> startsWith k INTERNAL_PREFIX
                    then JString (CHR ''~'' # version) else x))
        = (\<lambda>(k, x). (k, if k \<in> set ks \<and> startsWith k INTERNAL_PREFIX
                    then JString (CHR ''~'' # version) else x))"
      using False by (auto simp: fun_eq_iff)
    with Cons.IH [of kvs ds] Cons.prems False show ?thesis
      by simp
  next
    case True
    define ds1 where "ds1 = obj_set a (JString (CHR ''~'' # version)) ds"
    define kvs1 where "kvs1 = obj_set t (JObject ds1) kvs"
    have a_in: "a \<in> fst ` set ds" using Cons.prems(2) by simp
    have step: "assign_dep version t a (JObject kvs) = Inr (JObject kvs1)"
      by (simp add: assign_dep_def Cons.prems(1) ds1_def kvs1_def)
    have ds1_eq: "ds1 = map (\<lambda>(k, x). if k = a then (k, JString (CHR ''~'' # version)) else (k, x)) ds"
      using a_in by (simp add: ds1_def obj_set_def)
    have k1: "map fst ds1 = map fst ds" using a_in by (simp add: ds1_def map_fst_obj_set)
    have p1: "map_of kvs1 t = Some (JObject ds1)" by (simp add: kvs1_def map_of_obj_set)
    have p2: "set ks \<subseteq> fst ` set ds1"
      using Cons.prems(2) k1 by (metis set_map set_subset_Cons subset_trans)
    from Cons.IH [OF p1 p2] obtain kvs' where
      r: "forEach ks (\<lambda>dep j. if startsWith dep INTERNAL_PREFIX
                    then assign_dep version t dep j else Inr j) (JObject kvs1) = Inr (JObject kvs')"
      and f: "map fst kvs' = map fst kvs1"
      and m: "map_of kvs' = (map_of kvs1)(t \<mapsto> JObject (map (\<lambda>(k, x).
                (k, if k \<in> set ks \<and> startsWith k INTERNAL_PREFIX
                    then JString (CHR ''~'' # version) else x)) ds1))"
      by blast
    have e: "map (\<lambda>(k, x). (k, if k \<in> set ks \<and> startsWith k INTERNAL_PREFIX
                    then JString (CHR ''~'' # version) else x)) ds1
           = map (\<lambda>(k, x). (k, if k \<in> set (a # ks) \<and> startsWith k INTERNAL_PREFIX
                    then JString (CHR ''~'' # version) else x)) ds"
      using True by (auto simp: ds1_eq)
    have "map fst kvs' = map fst kvs"
      using f t_in by (simp add: kvs1_def map_fst_obj_set)
    moreover have "map_of kvs' = (map_of kvs)(t \<mapsto> JObject (map (\<lambda>(k, x).
                (k, if k \<in> set (a # ks) \<and> startsWith k INTERNAL_PREFIX
                    then JString (CHR ''~'' # version) else x)) ds))"
      using m e by (simp add: kvs1_def map_of_obj_set)
    moreover have "forEach (a # ks) (\<lambda>dep j. if startsWith dep INTERNAL_PREFIX
                    then assign_dep version t dep j else Inr j) (JObject kvs) = Inr (JObject kvs')"
      using True step r by simp
    ultimately show ?thesis by blast
  qed
qed

lemma update_dep_type_object:
  "\<exists>kvs'. update_dep_type version t (JObject kvs) = Inr (JObject kvs')
     \<and> map fst kvs' = map fst kvs
     \<and> map_of kvs' = (\<lambda>k. if k = t then map_option (with_internal_ranges version) (map_of kvs t)
                           else map_of kvs k)"
proof (cases "map_of kvs t")
  case None
  then show ?thesis
    by (auto simp: update_dep_type_def fun_eq_iff)
next
  case (Some x)
  show ?thesis
  proof (cases x)
    case (JObject ds)
    have "map (\<lambda>(k, x). (k, if k \<in> set (map fst ds) \<and> startsWith k INTERNAL_PREFIX
                    then JString (CHR ''~'' # version) else x)) ds
            = map (\<lambda>(k, x). (k, if startsWith k INTERNAL_PREFIX
                    then JString (CHR ''~'' # version) else x)) ds"
      by (rule map_cong, simp, force)
    with dep_loop [of kvs t ds "map fst ds" version] Some JObject show ?thesis
      by (auto simp: update_dep_type_def with_internal_ranges_def fun_eq_iff)
  next
    case (JArray xs)
    have "forEach (map dec [0..<length xs]) (\<lambda>dep j. if startsWith dep INTERNAL_PREFIX
                    then assign_dep version t dep j else Inr j) (JObject kvs) = Inr (JObject kvs)"
      by (rule forEach_skip) (auto simp: dec_not_internal)
    with Some JArray show ?thesis
      by (auto simp: update_dep_type_def with_internal_ranges_def fun_eq_iff)
  next
    case (JString s)
    have "forEach (map dec [0..<length s]) (\<lambda>dep j. if startsWith dep INTERNAL_PREFIX
                    then assign_dep version t dep j else Inr j) (JObject kvs) = Inr (JObject kvs)"
      by (rule forEach_skip) (auto simp: dec_not_internal)
    with Some JString show ?thesis
      by (auto simp: update_dep_type_def with_internal_ranges_def fun_eq_iff)
  qed (use Some in \<open>auto simp: update_dep_type_def with_internal_ranges_def fun_eq_iff\<close>)
qed

lemma depTypes_loop:
  "\<exists>kvs'. forEach ts (update_dep_type version) (JObject kvs) = Inr (JObject kvs')
     \<and> map fst kvs' = map fst kvs
     \<and> map_of kvs' = (\<lambda>k. if k \<in> set ts then map_option (with_internal_ranges version) (map_of kvs k)
                           else map_of kvs k)"
  if "distinct ts"
  using that
proof (induction ts arbitrary: kvs)
  case Nil
  then show ?case by simp
next
  case (Cons t ts)
  obtain kvs1 where s1: "update_dep_type version t (JObject kvs) = Inr (JObject kvs1)"
    and k1: "map fst kvs1 = map fst kvs"
    and m1: "map_of kvs1 = (\<lambda>k. if k = t then map_option (with_internal_ranges version) (map_of kvs t)
                           else map_of kvs k)"
    using update_dep_type_object [of version t kvs] by blast
  from Cons obtain kvs' where s2: "forEach ts (update_dep_type version) (JObject kvs1) = Inr (JObject kvs')"
    and k2: "map fst kvs' = map fst kvs1"
    and m2: "map_of kvs' = (\<lambda>k. if k \<in> set ts then map_option (with_internal_ranges version) (map_of kvs1 k)
                           else map_of kvs1 k)"
    by (metis distinct.simps(2))
  have "forEach (t # ts) (update_dep_type version) (JObject kvs) = Inr (JObject kvs')"
    using s1 s2 by simp
  moreover have "map fst kvs' = map fst kvs" using k1 k2 by simp
  moreover have "map_of kvs' = (\<lambda>k. if k \<in> set (t # ts)
      then map_option (with_internal_ranges version) (map_of kvs k) else map_of kvs k)"
    using Cons.prems by (auto simp: m1 m2 fun_eq_iff)
  ultimately show ?case by blast
qed

lemma update_json_object:
  "\<exists>kvs'. update_json version (JObject kvs) = Inr (JObject kvs')
     \<and> map fst kvs' = (if ''version'' \<in> fst ` set kvs then map fst kvs else map fst kvs @ [''version''])
     \<and> map_of kvs' = (\<lambda>k. if k = ''version'' then Some (JString version)
                           else if k \<in> set depTypes
                             then map_option (with_internal_ranges version) (map_of kvs k)
                           else map_of kvs k)"
proof -
  have d: "distinct depTypes" and nv: "''version'' \<notin> set depTypes"
    by (simp_all add: depTypes_def)
  from depTypes_loop [OF d, of version "obj_set ''version'' (JString version) kvs"]
  obtain kvs' where "forEach depTypes (update_dep_type version)
        (JObject (obj_set ''version'' (JString version) kvs)) = Inr (JObject kvs')"
    and "map fst kvs' = map fst (obj_set ''version'' (JString version) kvs)"
    and "map_of kvs' = (\<lambda>k. if k \<in> set depTypes
           then map_option (with_internal_ranges version)
                  (map_of (obj_set ''version'' (JString version) kvs) k)
           else map_of (obj_set ''version'' (JString version) kvs) k)"
    by blast
  then show ?thesis
    using nv by (auto simp: update_json_def map_fst_obj_set map_of_obj_set fun_eq_iff)
qed

lemma dec_not_version: "dec i \<noteq> ''version''"
proof
  assume "dec i = ''version''"
  with dec_digits [of i] show False by simp
qed

lemma update_json_array: "update_json version (JArray xs) = Inr (JArray xs)"
proof -
  have "find (\<lambda>i. dec i = ''version'') [0..<length xs] = None"
    by (simp add: find_None_iff dec_not_version)
  then show ?thesis
    by (simp add: update_json_def depTypes_def update_dep_type_def)
qed

lemma update_json_primitive:
  "(\<forall>kvs. j \<noteq> JObject kvs) \<Longrightarrow> (\<forall>xs. j \<noteq> JArray xs) \<Longrightarrow> update_json version j = Inl TypeError"
  by (cases j) (auto simp: update_json_def)

subsection \<open>Single steps\<close>

lemma written_append [simp]: "written (xs @ ys) = written xs @ written ys"
  by (induction xs rule: written.induct) auto

lemma commands_append [simp]: "commands (xs @ ys) = commands xs @ commands ys"
  by (induction xs rule: commands.induct) auto


text \<open>What updatePackageJsonFile does, case by case.\<close>

lemma updatePackageJsonFile_eq:
  "updatePackageJsonFile env filePath packageName version w =
     (case readFileSync (files w) filePath of
        Inl e \<Rightarrow> (Throw e, w)
      | Inr text \<Rightarrow>
          (case JSON_parse env text of
             None \<Rightarrow> (Throw SyntaxError, w)
           | Some json \<Rightarrow>
               (case update_json version json of
                  Inl e \<Rightarrow> (Throw e, w)
                | Inr json' \<Rightarrow>
                    (Return (),
                     w\<lparr>files := (files w)(filePath \<mapsto> File (JSON_stringify json' @ [CHR 0x0A])),
                       trace := trace w @ [Wrote filePath (JSON_stringify json' @ [CHR 0x0A]),
                                           Printed (''Updated package '' @ packageName)]\<rparr>))))"
  by (auto simp: updatePackageJsonFile_def then_do_def readFile_def lift_def parse_def
      writeFile_def writeFileSync_def readFileSync_def emit_def
      split: sum.splits option.splits node.splits)


subsection \<open>What a run can change\<close>

lemma same_shape_refl [simp]: "same_shape fs fs"
  by (auto simp: same_shape_def split: option.splits node.splits)








lemma effects_refl [simp]: "effects w w []"
  by (simp add: effects_def)









subsection \<open>The project root and the commands\<close>













subsection \<open>Exit codes of the try block\<close>




lemma never_exits_ret [simp]: "never_exits (ret x)"
  by (auto simp: never_exits_def ret_def)








subsection \<open>A successful run\<close>





subsection \<open>The claims about a run\<close>

lemma new_events_append [simp]: "trace w' = trace w @ es \<Longrightarrow> new_events w w' = es"
  by (simp add: new_events_def)






text \<open>
  Claim C10. The two variants decide alike on every argument list: the same one of
  help, missing version, invalid version and accepted version (with the same version
  string), and whenever the decision is not to go on, the same exit code, whatever
  the surroundings of either.
\<close>

theorem C10_same_argument_handling:
  "check_args_part_000 args = check_args args
   \<and> (case check_args args of
        Proceed v \<Rightarrow> True
      | _ \<Rightarrow> fst (main_part_000 env0 args w0) = fst (main env args w))"
proof -
  have e: "check_args_part_000 args = check_args args"
    by (simp add: check_args_part_000_def check_args_def)
  show ?thesis
    by (cases "check_args args") (simp_all add: e main_def main_part_000_def)
qed









subsection \<open>The manifests after a run\<close>








text \<open>
  Claim C9. \<^verbatim>\<open>updatePackageJsonFile\<close> either throws and leaves the world as it
  was (the file cannot be read, is not JSON, or holds \<^verbatim>\<open>null\<close> or a primitive),
  or it replaces the content of the one file by the serialization of the changed
  document and prints one line. The changed document of an object has the same
  property names in the same order, with \<^verbatim>\<open>version\<close> added at the end when it
  was missing; \<^verbatim>\<open>version\<close> is the target version; each of the three dependency
  fields, when it is an object, has the same names in the same order and the same
  values, but for the names that start with the internal prefix, whose value is
  \<^verbatim>\<open>~<version>\<close>; a dependency field that is not an object, and every other
  property, has the value it had. An array is written back as it was read.
\<close>

theorem C9_only_version_and_internal_ranges:
  "updatePackageJsonFile env filePath packageName version w =
     (case readFileSync (files w) filePath of
        Inl e \<Rightarrow> (Throw e, w)
      | Inr body \<Rightarrow>
          (case JSON_parse env body of
             None \<Rightarrow> (Throw SyntaxError, w)
           | Some json \<Rightarrow>
               (case update_json version json of
                  Inl e \<Rightarrow> (Throw e, w)
                | Inr json' \<Rightarrow>
                    (Return (),
                     w\<lparr>files := (files w)(filePath \<mapsto> File (JSON_stringify json' @ [CHR 0x0A])),
                       trace := trace w @ [Wrote filePath (JSON_stringify json' @ [CHR 0x0A]),
                                           Printed (''Updated package '' @ packageName)]\<rparr>))))
   \<and> (case json of
        JObject kvs \<Rightarrow>
          (\<exists>kvs'. update_json version json = Inr (JObject kvs') \<and>
             map fst kvs' = (if ''version'' \<in> set (map fst kvs) then map fst kvs
                             else map fst kvs @ [''version'']) \<and>
             (\<forall>k. map_of kvs' k =
                (if k = ''version'' then Some (JString version)
                 else if k \<in> set depTypes
                   then map_option (with_internal_ranges version) (map_of kvs k)
                 else map_of kvs k)))
      | JArray xs \<Rightarrow> update_json version json = Inr json
      | _ \<Rightarrow> update_json version json = Inl TypeError)
   \<and> (case deps of
        JObject ds \<Rightarrow>
          with_internal_ranges version deps =
            JObject (map (\<lambda>(k, x). (k, if startsWith k INTERNAL_PREFIX
                                        then JString (CHR ''~'' # version) else x)) ds)
      | _ \<Rightarrow> with_internal_ranges version deps = deps)"
proof (intro conjI)
  show "case json of
        JObject kvs \<Rightarrow>
          (\<exists>kvs'. update_json version json = Inr (JObject kvs') \<and>
             map fst kvs' = (if ''version'' \<in> set (map fst kvs) then map fst kvs
                             else map fst kvs @ [''version'']) \<and>
             (\<forall>k. map_of kvs' k =
                (if k = ''version'' then Some (JString version)
                 else if k \<in> set depTypes
                   then map_option (with_internal_ranges version) (map_of kvs k)
                 else map_of kvs k)))
      | JArray xs \<Rightarrow> update_json version json = Inr json
      | _ \<Rightarrow> update_json version json = Inl TypeError"
  proof (cases json)
    case (JObject kvs)
    from update_json_object [of version kvs] obtain kvs' where
      "update_json version (JObject kvs) = Inr (JObject kvs')"
      "map fst kvs' = (if ''version'' \<in> fst ` set kvs then map fst kvs else map fst kvs @ [''version''])"
      "map_of kvs' = (\<lambda>k. if k = ''version'' then Some (JString version)
                           else if k \<in> set depTypes
                             then map_option (with_internal_ranges version) (map_of kvs k)
                           else map_of kvs k)"
      by blast
    then show ?thesis
      unfolding JObject by (intro json.case(6) [THEN iffD2] exI [of _ kvs']) simp
  qed (simp_all add: update_json_array update_json_primitive)
next
  show "case deps of
        JObject ds \<Rightarrow>
          with_internal_ranges version deps =
            JObject (map (\<lambda>(k, x). (k, if startsWith k INTERNAL_PREFIX
                                        then JString (CHR ''~'' # version) else x)) ds)
      | _ \<Rightarrow> with_internal_ranges version deps = deps"
    by (cases deps) (simp_all add: with_internal_ranges_def)
qed (rule updatePackageJsonFile_eq)

text \<open>
  Claim C9, on the manifest of the bundle package of the example: the version and the
  range of the internal package change, the name and the range of
  \<^verbatim>\<open>preact\<close> do not.
\<close>

theorem C9_witness:
  "update_json ''1.1.0'' demo_bundle_doc = Inr (JObject [
     (''name'', JString ''fullcalendar''),
     (''version'', JString ''1.1.0''),
     (''dependencies'', JObject [(''@teamdiverst/fullcalendar-core'', JString ''~1.1.0''),
                                 (''preact'', JString ''~10.12.1'')])])
   \<and> files (snd (updatePackageJsonFile demo_env [''repo'', ''bundle'', ''package.json'']
                   ''bundle'' ''1.1.0'' demo_world)) [''repo'', ''bundle'', ''package.json'']
       = Some (File (JSON_stringify (JObject [
           (''name'', JString ''fullcalendar''),
           (''version'', JString ''1.1.0''),
           (''dependencies'', JObject [(''@teamdiverst/fullcalendar-core'', JString ''~1.1.0''),
                                       (''preact'', JString ''~10.12.1'')])]) @ [CHR 0x0A]))"
proof -
  have u: "update_json ''1.1.0'' demo_bundle_doc = Inr (JObject [
     (''name'', JString ''fullcalendar''),
     (''version'', JString ''1.1.0''),
     (''dependencies'', JObject [(''@teamdiverst/fullcalendar-core'', JString ''~1.1.0''),
                                 (''preact'', JString ''~10.12.1'')])])"
    by code_simp
  have r: "readFileSync (files demo_world) [''repo'', ''bundle'', ''package.json'']
      = Inr (text_of demo_bundle_doc)"
    by code_simp
  have p: "JSON_parse demo_env (text_of demo_bundle_doc) = Some demo_bundle_doc"
    by code_simp
  from C9_only_version_and_internal_ranges [of demo_env "[''repo'', ''bundle'', ''package.json'']"
      "''bundle''" "''1.1.0''" demo_world JNull JNull]
  have "updatePackageJsonFile demo_env [''repo'', ''bundle'', ''package.json''] ''bundle'' ''1.1.0''
      demo_world =
     (case readFileSync (files demo_world) [''repo'', ''bundle'', ''package.json''] of
        Inl e \<Rightarrow> (Throw e, demo_world)
      | Inr body \<Rightarrow>
          (case JSON_parse demo_env body of
             None \<Rightarrow> (Throw SyntaxError, demo_world)
           | Some json \<Rightarrow>
               (case update_json ''1.1.0'' json of
                  Inl e \<Rightarrow> (Throw e, demo_world)
                | Inr json' \<Rightarrow>
                    (Return (),
                     demo_world\<lparr>files := (files demo_world)([''repo'', ''bundle'', ''package.json'']
                           \<mapsto> File (JSON_stringify json' @ [CHR 0x0A])),
                       trace := trace demo_world @
                          [Wrote [''repo'', ''bundle'', ''package.json'']
                             (JSON_stringify json' @ [CHR 0x0A]),
                           Printed (''Updated package '' @ ''bundle'')]\<rparr>))))"
    by blast
  with u r p show ?thesis by simp
qed

subsection \<open>The written text\<close>





subsection \<open>The version grammar\<close>

lemma star_Cons:
  "c # w \<in> star A \<longleftrightarrow> (\<exists>u v. w = u @ v \<and> c # u \<in> A \<and> v \<in> star A)"
proof
  assume "c # w \<in> star A"
  then show "\<exists>u v. w = u @ v \<and> c # u \<in> A \<and> v \<in> star A"
  proof (induction "c # w" arbitrary: w rule: star.induct)
    case (star_step u v)
    show ?case
    proof (cases u)
      case Nil
      with star_step show ?thesis by simp
    next
      case (Cons a u')
      with star_step.hyps have "w = u' @ v" "c # u' \<in> A" "v \<in> star A" by auto
      then show ?thesis by blast
    qed
  qed
next
  assume "\<exists>u v. w = u @ v \<and> c # u \<in> A \<and> v \<in> star A"
  then obtain u v where "w = u @ v" "c # u \<in> A" "v \<in> star A" by blast
  then have "(c # u) @ v \<in> star A" by (intro star.star_step)
  with \<open>w = u @ v\<close> show "c # w \<in> star A" by simp
qed

lemma nullable_iff: "nullable r \<longleftrightarrow> [] \<in> lang r"
  by (induction r) (auto intro: star.star_empty)

lemma lang_deriv: "w \<in> lang (deriv c r) \<longleftrightarrow> c # w \<in> lang r"
proof (induction r arbitrary: w)
  case (Seq r s)
  show ?case
  proof (cases "nullable r")
    case True
    then have "[] \<in> lang r" by (simp add: nullable_iff)
    have "w \<in> lang (deriv c (Seq r s)) \<longleftrightarrow>
        (\<exists>u v. w = u @ v \<and> c # u \<in> lang r \<and> v \<in> lang s) \<or> c # w \<in> lang s"
      using True Seq by auto
    also have "\<dots> \<longleftrightarrow> (\<exists>u v. c # w = u @ v \<and> u \<in> lang r \<and> v \<in> lang s)"
    proof
      assume "(\<exists>u v. w = u @ v \<and> c # u \<in> lang r \<and> v \<in> lang s) \<or> c # w \<in> lang s"
      then show "\<exists>u v. c # w = u @ v \<and> u \<in> lang r \<and> v \<in> lang s"
      proof
        assume "\<exists>u v. w = u @ v \<and> c # u \<in> lang r \<and> v \<in> lang s"
        then obtain u v where "w = u @ v" "c # u \<in> lang r" "v \<in> lang s" by blast
        then have "c # w = (c # u) @ v" by simp
        with \<open>c # u \<in> lang r\<close> \<open>v \<in> lang s\<close> show ?thesis by blast
      next
        assume "c # w \<in> lang s"
        with \<open>[] \<in> lang r\<close> have "c # w = [] @ (c # w) \<and> [] \<in> lang r \<and> c # w \<in> lang s" by simp
        then show ?thesis by blast
      qed
    next
      assume "\<exists>u v. c # w = u @ v \<and> u \<in> lang r \<and> v \<in> lang s"
      then obtain u v where e: "c # w = u @ v" and u: "u \<in> lang r" and v: "v \<in> lang s" by blast
      show "(\<exists>u v. w = u @ v \<and> c # u \<in> lang r \<and> v \<in> lang s) \<or> c # w \<in> lang s"
      proof (cases u)
        case Nil
        with e v show ?thesis by simp
      next
        case (Cons a u')
        with e u v have "w = u' @ v" "c # u' \<in> lang r" by auto
        with v show ?thesis by blast
      qed
    qed
    finally show ?thesis by auto
  next
    case False
    then have n: "[] \<notin> lang r" by (simp add: nullable_iff)
    have "w \<in> lang (deriv c (Seq r s)) \<longleftrightarrow>
        (\<exists>u v. w = u @ v \<and> c # u \<in> lang r \<and> v \<in> lang s)"
      using False Seq by auto
    also have "\<dots> \<longleftrightarrow> (\<exists>u v. c # w = u @ v \<and> u \<in> lang r \<and> v \<in> lang s)"
    proof
      assume "\<exists>u v. w = u @ v \<and> c # u \<in> lang r \<and> v \<in> lang s"
      then obtain u v where "w = u @ v" "c # u \<in> lang r" "v \<in> lang s" by blast
      then have "c # w = (c # u) @ v" by simp
      with \<open>c # u \<in> lang r\<close> \<open>v \<in> lang s\<close>
      show "\<exists>u v. c # w = u @ v \<and> u \<in> lang r \<and> v \<in> lang s" by blast
    next
      assume "\<exists>u v. c # w = u @ v \<and> u \<in> lang r \<and> v \<in> lang s"
      then obtain u v where e: "c # w = u @ v" and u: "u \<in> lang r" and v: "v \<in> lang s" by blast
      from u n have "u \<noteq> []" by auto
      then obtain a u' where "u = a # u'" by (cases u) auto
      with e u v have "w = u' @ v" "c # u' \<in> lang r" by auto
      with v show "\<exists>u v. w = u @ v \<and> c # u \<in> lang r \<and> v \<in> lang s" by blast
    qed
    finally show ?thesis by auto
  qed
next
  case (Star r)
  then show ?case by (auto simp: star_Cons)
qed auto

lemma regex_test_iff: "regex_test r s \<longleftrightarrow> s \<in> lang r"
proof -
  have "nullable (foldl (\<lambda>r c. deriv c r) r s) \<longleftrightarrow> s \<in> lang r"
  proof (induction s arbitrary: r)
    case Nil
    then show ?case by (simp add: nullable_iff)
  next
    case (Cons c s)
    then show ?case by (simp add: lang_deriv)
  qed
  then show ?thesis by (simp add: regex_test_def)
qed

lemma star_concat: "s \<in> star A \<longleftrightarrow> (\<exists>ws. set ws \<subseteq> A \<and> s = concat ws)"
proof
  assume "s \<in> star A"
  then show "\<exists>ws. set ws \<subseteq> A \<and> s = concat ws"
  proof (induction rule: star.induct)
    case star_empty
    have "set [] \<subseteq> A \<and> [] = concat ([] :: string list)" by simp
    then show ?case by blast
  next
    case (star_step u v)
    then obtain ws where "set ws \<subseteq> A" "v = concat ws" by blast
    with star_step.hyps(1) have "set (u # ws) \<subseteq> A \<and> u @ v = concat (u # ws)" by simp
    then show ?case by blast
  qed
next
  assume "\<exists>ws. set ws \<subseteq> A \<and> s = concat ws"
  then obtain ws where "set ws \<subseteq> A" "s = concat ws" by blast
  then show "s \<in> star A"
  proof (induction ws arbitrary: s)
    case Nil
    then show ?case by (simp add: star.star_empty)
  next
    case (Cons w ws)
    then show ?case by (auto intro: star.star_step)
  qed
qed

lemma lang_Plus_Class:
  "s \<in> lang (Plus (Class cs)) \<longleftrightarrow> s \<noteq> [] \<and> (\<forall>c \<in> set s. c \<in> set cs)"
proof -
  have st: "v \<in> star {[c] |c. c \<in> set cs} \<longleftrightarrow> (\<forall>c \<in> set v. c \<in> set cs)" for v
  proof
    assume "v \<in> star {[c] |c. c \<in> set cs}"
    then show "\<forall>c \<in> set v. c \<in> set cs"
      by (induction rule: star.induct) auto
  next
    assume "\<forall>c \<in> set v. c \<in> set cs"
    then show "v \<in> star {[c] |c. c \<in> set cs}"
    proof (induction v)
      case Nil
      then show ?case by (simp add: star.star_empty)
    next
      case (Cons a v)
      then have "[a] \<in> {[c] |c. c \<in> set cs}" "v \<in> star {[c] |c. c \<in> set cs}" by auto
      then have "[a] @ v \<in> star {[c] |c. c \<in> set cs}" by (rule star.star_step)
      then show ?case by simp
    qed
  qed
  show ?thesis
  proof (cases s)
    case Nil
    then show ?thesis by (simp add: Plus_def)
  next
    case (Cons a v)
    have "a # v \<in> lang (Plus (Class cs)) \<longleftrightarrow> a \<in> set cs \<and> v \<in> star {[c] |c. c \<in> set cs}"
    proof
      assume "a # v \<in> lang (Plus (Class cs))"
      then show "a \<in> set cs \<and> v \<in> star {[c] |c. c \<in> set cs}"
        by (auto simp: Plus_def)
    next
      assume "a \<in> set cs \<and> v \<in> star {[c] |c. c \<in> set cs}"
      then have "a # v = [a] @ v \<and> [a] \<in> lang (Class cs) \<and> v \<in> lang (Star (Class cs))"
        by simp
      then show "a # v \<in> lang (Plus (Class cs))"
        unfolding Plus_def lang.simps(4) by blast
    qed
    with Cons st show ?thesis by simp
  qed
qed

lemma lang_numeric: "s \<in> lang (Plus DIGIT) \<longleftrightarrow> numeric s"
  unfolding DIGIT_def numeric_def by (rule lang_Plus_Class)

lemma lang_segment: "s \<in> lang (Plus IDENT_CHAR) \<longleftrightarrow> segment s"
  unfolding IDENT_CHAR_def segment_def by (rule lang_Plus_Class)

lemma join_dots: "join ''.'' (g # gs) = g @ concat (map (\<lambda>x. ''.'' @ x) gs)"
  by (induction gs arbitrary: g) auto

lemma lang_Seq: "s \<in> lang (Seq r t) \<longleftrightarrow> (\<exists>u v. s = u @ v \<and> u \<in> lang r \<and> v \<in> lang t)"
  by simp

lemma lang_more_segments:
  "s \<in> lang (Star (Seq (Class ''.'') (Plus IDENT_CHAR))) \<longleftrightarrow>
     (\<exists>gs. (\<forall>g \<in> set gs. segment g) \<and> s = concat (map (\<lambda>x. ''.'' @ x) gs))"
proof -
  define B where "B = {''.'' @ g |g. segment g}"
  have dot: "u \<in> lang (Class ''.'') \<longleftrightarrow> u = ''.''" for u by auto
  have "x \<in> lang (Seq (Class ''.'') (Plus IDENT_CHAR)) \<longleftrightarrow> x \<in> B" for x
    unfolding lang_Seq dot lang_segment B_def by blast
  then have A: "lang (Seq (Class ''.'') (Plus IDENT_CHAR)) = B"
    by blast
  have l: "s \<in> lang (Star (Seq (Class ''.'') (Plus IDENT_CHAR))) \<longleftrightarrow>
      (\<exists>ws. set ws \<subseteq> B \<and> s = concat ws)"
    by (simp only: lang.simps(6) A star_concat)
  have m: "set ws \<subseteq> B \<longleftrightarrow> (\<exists>gs. (\<forall>g \<in> set gs. segment g) \<and> ws = map (\<lambda>x. ''.'' @ x) gs)"
    for ws
  proof (induction ws)
    case Nil
    show ?case by simp
  next
    case (Cons w ws)
    show ?case
    proof
      assume "set (w # ws) \<subseteq> B"
      then have "w \<in> B" "set ws \<subseteq> B" by simp_all
      from \<open>w \<in> B\<close> obtain g where g: "w = ''.'' @ g" "segment g"
        unfolding B_def by blast
      from \<open>set ws \<subseteq> B\<close> Cons
      have "\<exists>gs. (\<forall>g \<in> set gs. segment g) \<and> ws = map (\<lambda>x. ''.'' @ x) gs" by simp
      then obtain gs where gs: "\<forall>g \<in> set gs. segment g"
        "ws = map (\<lambda>x. ''.'' @ x) gs" by (elim exE conjE)
      from g gs have "(\<forall>x \<in> set (g # gs). segment x) \<and> w # ws = map (\<lambda>x. ''.'' @ x) (g # gs)"
        by simp
      then show "\<exists>gs. (\<forall>g \<in> set gs. segment g) \<and> w # ws = map (\<lambda>x. ''.'' @ x) gs"
        by (rule exI [of _ "g # gs"])
    next
      assume "\<exists>gs. (\<forall>g \<in> set gs. segment g) \<and> w # ws = map (\<lambda>x. ''.'' @ x) gs"
      then obtain gs where gs: "\<forall>g \<in> set gs. segment g" "w # ws = map (\<lambda>x. ''.'' @ x) gs"
        by (elim exE conjE)
      then obtain g gs' where e: "gs = g # gs'" by (cases gs) auto
      with gs have "w = ''.'' @ g" "segment g" "ws = map (\<lambda>x. ''.'' @ x) gs'"
        "\<forall>g \<in> set gs'. segment g" by simp_all
      then have "w \<in> B" and "\<exists>gs. (\<forall>g \<in> set gs. segment g) \<and> ws = map (\<lambda>x. ''.'' @ x) gs"
        unfolding B_def by (simp, intro exI [of _ gs'], simp)
      with Cons have "w \<in> B" "set ws \<subseteq> B" by simp_all
      then show "set (w # ws) \<subseteq> B" by simp
    qed
  qed
  show ?thesis
    unfolding l m
  proof
    assume "\<exists>ws. (\<exists>gs. (\<forall>g \<in> set gs. segment g) \<and> ws = map (\<lambda>x. ''.'' @ x) gs) \<and> s = concat ws"
    then obtain ws gs where "\<forall>g \<in> set gs. segment g" "ws = map (\<lambda>x. ''.'' @ x) gs" "s = concat ws"
      by (elim exE conjE)
    then have "(\<forall>g \<in> set gs. segment g) \<and> s = concat (map (\<lambda>x. ''.'' @ x) gs)" by simp
    then show "\<exists>gs. (\<forall>g \<in> set gs. segment g) \<and> s = concat (map (\<lambda>x. ''.'' @ x) gs)"
      by (rule exI)
  next
    assume "\<exists>gs. (\<forall>g \<in> set gs. segment g) \<and> s = concat (map (\<lambda>x. ''.'' @ x) gs)"
    then obtain gs where gs: "\<forall>g \<in> set gs. segment g" "s = concat (map (\<lambda>x. ''.'' @ x) gs)"
      by (elim exE conjE)
    then have "(\<exists>gs'. (\<forall>g \<in> set gs'. segment g) \<and> map (\<lambda>x. ''.'' @ x) gs = map (\<lambda>x. ''.'' @ x) gs')
        \<and> s = concat (map (\<lambda>x. ''.'' @ x) gs)"
      by (intro conjI exI [of _ gs]) simp_all
    then show "\<exists>ws. (\<exists>gs. (\<forall>g \<in> set gs. segment g) \<and> ws = map (\<lambda>x. ''.'' @ x) gs) \<and> s = concat ws"
      by (rule exI)
  qed
qed

lemma lang_prerelease:
  "s \<in> lang (Seq (Plus IDENT_CHAR) (Star (Seq (Class ''.'') (Plus IDENT_CHAR)))) \<longleftrightarrow>
     (\<exists>segs. segs \<noteq> [] \<and> (\<forall>g \<in> set segs. segment g) \<and> s = join ''.'' segs)"
proof
  assume "s \<in> lang (Seq (Plus IDENT_CHAR) (Star (Seq (Class ''.'') (Plus IDENT_CHAR))))"
  then obtain g gs where "segment g" "\<forall>g \<in> set gs. segment g"
    "s = g @ concat (map (\<lambda>x. ''.'' @ x) gs)"
    unfolding lang_Seq lang_segment lang_more_segments by blast
  then have "g # gs \<noteq> [] \<and> (\<forall>x \<in> set (g # gs). segment x) \<and> s = join ''.'' (g # gs)"
    by (simp add: join_dots)
  then show "\<exists>segs. segs \<noteq> [] \<and> (\<forall>g \<in> set segs. segment g) \<and> s = join ''.'' segs"
    by blast
next
  assume "\<exists>segs. segs \<noteq> [] \<and> (\<forall>g \<in> set segs. segment g) \<and> s = join ''.'' segs"
  then obtain g gs where "\<forall>x \<in> set (g # gs). segment x" "s = join ''.'' (g # gs)"
    by (metis list.exhaust)
  then have "segment g" "\<forall>g \<in> set gs. segment g" "s = g @ concat (map (\<lambda>x. ''.'' @ x) gs)"
    by (simp_all add: join_dots)
  then show "s \<in> lang (Seq (Plus IDENT_CHAR) (Star (Seq (Class ''.'') (Plus IDENT_CHAR))))"
    unfolding lang_Seq lang_segment lang_more_segments by blast
qed

lemma lang_literal_then:
  "s \<in> lang (Seq (Class [c]) r) \<longleftrightarrow> (\<exists>v. s = c # v \<and> v \<in> lang r)"
proof -
  have "u \<in> lang (Class [c]) \<longleftrightarrow> u = [c]" for u by auto
  then have "s \<in> lang (Seq (Class [c]) r) \<longleftrightarrow> (\<exists>u v. s = u @ v \<and> u = [c] \<and> v \<in> lang r)"
    unfolding lang_Seq by simp
  also have "\<dots> \<longleftrightarrow> (\<exists>v. s = c # v \<and> v \<in> lang r)" by simp
  finally show ?thesis .
qed

lemma semver_shape:
  fixes N :: "string \<Rightarrow> bool" and P :: "string \<Rightarrow> bool"
  shows "(\<exists>a r1. s = a @ r1 \<and> N a \<and> (\<exists>r2. r1 = d # r2 \<and> (\<exists>b r3. r2 = b @ r3 \<and> N b \<and>
           (\<exists>r4. r3 = d # r4 \<and> (\<exists>c t. r4 = c @ t \<and> N c \<and> P t)))))
     \<longleftrightarrow> (\<exists>a b c t. N a \<and> N b \<and> N c \<and> P t \<and> s = a @ d # b @ d # c @ t)"
  by blast

lemma lang_SEMVER_RE: "s \<in> lang SEMVER_RE \<longleftrightarrow> semver_grammar s"
proof -
  define P where "P = (\<lambda>t. t \<in> lang (Opt (Seq (Class ''-'')
          (Seq (Plus IDENT_CHAR) (Star (Seq (Class ''.'') (Plus IDENT_CHAR)))))))"
  have opt: "P t \<longleftrightarrow>
      t = [] \<or> (\<exists>segs. segs \<noteq> [] \<and> (\<forall>g \<in> set segs. segment g) \<and> t = ''-'' @ join ''.'' segs)"
    for t
  proof -
    have "P t \<longleftrightarrow> t = [] \<or> t \<in> lang (Seq (Class ''-'')
          (Seq (Plus IDENT_CHAR) (Star (Seq (Class ''.'') (Plus IDENT_CHAR)))))"
      unfolding P_def Opt_def by auto
    also have "\<dots> \<longleftrightarrow> t = [] \<or> (\<exists>v. t = CHR ''-'' # v \<and>
        (\<exists>segs. segs \<noteq> [] \<and> (\<forall>g \<in> set segs. segment g) \<and> v = join ''.'' segs))"
      unfolding lang_literal_then lang_prerelease ..
    also have "\<dots> \<longleftrightarrow> t = [] \<or>
        (\<exists>segs. segs \<noteq> [] \<and> (\<forall>g \<in> set segs. segment g) \<and> t = ''-'' @ join ''.'' segs)"
      by auto
    finally show ?thesis .
  qed
  have "s \<in> lang SEMVER_RE \<longleftrightarrow>
      (\<exists>a r1. s = a @ r1 \<and> numeric a \<and> (\<exists>r2. r1 = CHR ''.'' # r2 \<and>
         (\<exists>b r3. r2 = b @ r3 \<and> numeric b \<and>
           (\<exists>r4. r3 = CHR ''.'' # r4 \<and> (\<exists>c t. r4 = c @ t \<and> numeric c \<and> P t)))))"
    unfolding SEMVER_RE_def
    by (simp only: lang_Seq [of _ "Plus DIGIT"] lang_literal_then lang_numeric P_def)
  also have "\<dots> \<longleftrightarrow> (\<exists>a b c t. numeric a \<and> numeric b \<and> numeric c \<and> P t \<and>
      s = a @ CHR ''.'' # b @ CHR ''.'' # c @ t)"
    by (rule semver_shape)
  also have "\<dots> \<longleftrightarrow> semver_grammar s"
  proof
    assume "\<exists>a b c t. numeric a \<and> numeric b \<and> numeric c \<and> P t \<and>
      s = a @ CHR ''.'' # b @ CHR ''.'' # c @ t"
    then obtain a b c t where n: "numeric a" "numeric b" "numeric c" and t: "P t"
      and s: "s = a @ CHR ''.'' # b @ CHR ''.'' # c @ t" by (elim exE conjE)
    from t opt have "t = [] \<or>
        (\<exists>segs. segs \<noteq> [] \<and> (\<forall>g \<in> set segs. segment g) \<and> t = ''-'' @ join ''.'' segs)"
      by simp
    then have "s = a @ ''.'' @ b @ ''.'' @ c \<or>
         (\<exists>segs. segs \<noteq> [] \<and> (\<forall>g \<in> set segs. segment g) \<and>
            s = a @ ''.'' @ b @ ''.'' @ c @ ''-'' @ join ''.'' segs)"
      using s by auto
    with n show "semver_grammar s"
      unfolding semver_grammar_def by (intro exI [of _ a] exI [of _ b] exI [of _ c]) simp
  next
    assume "semver_grammar s"
    then obtain a b c where n: "numeric a" "numeric b" "numeric c"
      and s: "s = a @ ''.'' @ b @ ''.'' @ c \<or>
         (\<exists>segs. segs \<noteq> [] \<and> (\<forall>g \<in> set segs. segment g) \<and>
            s = a @ ''.'' @ b @ ''.'' @ c @ ''-'' @ join ''.'' segs)"
      unfolding semver_grammar_def by (elim exE conjE)
    from s show "\<exists>a b c t. numeric a \<and> numeric b \<and> numeric c \<and> P t \<and>
      s = a @ CHR ''.'' # b @ CHR ''.'' # c @ t"
    proof
      assume "s = a @ ''.'' @ b @ ''.'' @ c"
      with n opt [of "[]"] have "numeric a \<and> numeric b \<and> numeric c \<and> P [] \<and>
          s = a @ CHR ''.'' # b @ CHR ''.'' # c @ []" by simp
      then show ?thesis by (intro exI)
    next
      assume "\<exists>segs. segs \<noteq> [] \<and> (\<forall>g \<in> set segs. segment g) \<and>
            s = a @ ''.'' @ b @ ''.'' @ c @ ''-'' @ join ''.'' segs"
      then obtain segs where g: "segs \<noteq> []" "\<forall>g \<in> set segs. segment g"
        and e: "s = a @ ''.'' @ b @ ''.'' @ c @ ''-'' @ join ''.'' segs" by (elim exE conjE)
      from g have "\<exists>segs'. segs' \<noteq> [] \<and> (\<forall>g \<in> set segs'. segment g) \<and>
          ''-'' @ join ''.'' segs = ''-'' @ join ''.'' segs'"
        by (intro exI [of _ segs]) simp
      then have "P (''-'' @ join ''.'' segs)" using opt by simp
      with n e have "numeric a \<and> numeric b \<and> numeric c \<and> P (''-'' @ join ''.'' segs) \<and>
          s = a @ CHR ''.'' # b @ CHR ''.'' # c @ (''-'' @ join ''.'' segs)" by simp
      then show ?thesis by (intro exI)
    qed
  qed
  finally show ?thesis .
qed

lemma semver_test_grammar: "regex_test SEMVER_RE s \<longleftrightarrow> semver_grammar s"
  by (simp add: regex_test_iff lang_SEMVER_RE)

text \<open>
  Claim C2, as amended. The expression the script tests accepts exactly the strings of
  the grammar: three dot-separated runs of digits (leading zeros allowed), optionally
  followed by a hyphen and dot-separated non-empty segments of letters, digits and
  hyphens. When neither \<^verbatim>\<open>-h\<close> nor \<^verbatim>\<open>--help\<close> is among the arguments, the
  tool goes on past validation exactly when its first argument is such a string, and
  for any other first argument it exits with code 1, with the files as before and
  nothing written; the earlier variant of the script does the same. When one of the help flags is among the arguments the tool does not
  go on either, whatever the first argument is, but exits with code 0; again nothing
  is written.
\<close>

theorem C2_validation:
  "(regex_test SEMVER_RE s \<longleftrightarrow> semver_grammar s)
   \<and> (''-h'' \<notin> set (s # rest) \<and> ''--help'' \<notin> set (s # rest) \<longrightarrow>
        (check_args (s # rest) = Proceed s \<longleftrightarrow> semver_grammar s) \<and>
        (\<not> semver_grammar s \<longrightarrow>
           fst (main env (s # rest) w) = 1 \<and>
           files (snd (main env (s # rest) w)) = files w \<and>
           written (new_events w (snd (main env (s # rest) w))) = []) \<and>
        (check_args_part_000 (s # rest) = Proceed s \<longleftrightarrow> semver_grammar s) \<and>
        (\<not> semver_grammar s \<longrightarrow>
           fst (main_part_000 env (s # rest) w) = 1 \<and>
           files (snd (main_part_000 env (s # rest) w)) = files w \<and>
           written (new_events w (snd (main_part_000 env (s # rest) w))) = []))
   \<and> (''-h'' \<in> set args \<or> ''--help'' \<in> set args \<longrightarrow>
        check_args args = ShowHelp \<and>
        fst (main env args w) = 0 \<and>
        files (snd (main env args w)) = files w \<and>
        written (new_events w (snd (main env args w))) = [])"
proof (intro conjI impI)
  show "regex_test SEMVER_RE s \<longleftrightarrow> semver_grammar s" by (rule semver_test_grammar)
next
  assume h: "''-h'' \<notin> set (s # rest) \<and> ''--help'' \<notin> set (s # rest)"
  then show "check_args (s # rest) = Proceed s \<longleftrightarrow> semver_grammar s"
    by (auto simp: check_args_def Let_def semver_test_grammar numeric_def semver_grammar_def)
  assume n: "\<not> semver_grammar s"
  with h have "check_args (s # rest) = NoVersion \<or> check_args (s # rest) = InvalidVersion s"
    by (auto simp: check_args_def Let_def semver_test_grammar)
  then have "fst (main env (s # rest) w) = 1 \<and>
           files (snd (main env (s # rest) w)) = files w \<and>
           written (new_events w (snd (main env (s # rest) w))) = []"
    by (auto simp: main_def new_events_def)
  then show "fst (main env (s # rest) w) = 1"
    "files (snd (main env (s # rest) w)) = files w"
    "written (new_events w (snd (main env (s # rest) w))) = []"
    by simp_all
next
  assume h: "''-h'' \<notin> set (s # rest) \<and> ''--help'' \<notin> set (s # rest)"
  then show "check_args_part_000 (s # rest) = Proceed s \<longleftrightarrow> semver_grammar s"
    by (auto simp: check_args_part_000_def Let_def semver_test_grammar numeric_def
        semver_grammar_def)
  assume n: "\<not> semver_grammar s"
  with h have "check_args_part_000 (s # rest) = NoVersion \<or>
      check_args_part_000 (s # rest) = InvalidVersion s"
    by (auto simp: check_args_part_000_def Let_def semver_test_grammar)
  then have "fst (main_part_000 env (s # rest) w) = 1 \<and>
           files (snd (main_part_000 env (s # rest) w)) = files w \<and>
           written (new_events w (snd (main_part_000 env (s # rest) w))) = []"
    by (auto simp: main_part_000_def new_events_def)
  then show "fst (main_part_000 env (s # rest) w) = 1"
    "files (snd (main_part_000 env (s # rest) w)) = files w"
    "written (new_events w (snd (main_part_000 env (s # rest) w))) = []"
    by simp_all
next
  assume "''-h'' \<in> set args \<or> ''--help'' \<in> set args"
  then have c: "check_args args = ShowHelp"
    by (auto simp: check_args_def Let_def)
  then show "check_args args = ShowHelp" .
  from c show "fst (main env args w) = 0" "files (snd (main env args w)) = files w"
    "written (new_events w (snd (main env args w))) = []"
    by (simp_all add: main_def new_events_def)
qed

text \<open>
  Claim C2 as amended, on the examples of the specification: two accepted versions,
  one of them with a leading zero, and the three rejected strings.
\<close>

theorem C2_witness:
  "semver_grammar ''6.1.19-a11y.1'' \<and> check_args [''6.1.19-a11y.1''] = Proceed ''6.1.19-a11y.1''
   \<and> semver_grammar ''01.2.3''
   \<and> \<not> semver_grammar ''1.2'' \<and> fst (main demo_env [''1.2''] demo_world) = 1
   \<and> files (snd (main demo_env [''1.2''] demo_world)) = files demo_world
   \<and> \<not> semver_grammar ''v1.2.3'' \<and> fst (main demo_env [''v1.2.3''] demo_world) = 1
   \<and> \<not> semver_grammar ''1.2.3-'' \<and> fst (main demo_env [''1.2.3-''] demo_world) = 1
   \<and> fst (main demo_env [''1.2'', ''--help''] demo_world) = 0"
proof -
  have a: "regex_test SEMVER_RE ''6.1.19-a11y.1''" by code_simp
  have b: "regex_test SEMVER_RE ''01.2.3''" by code_simp
  have c: "\<not> regex_test SEMVER_RE ''1.2''" by code_simp
  have d: "\<not> regex_test SEMVER_RE ''v1.2.3''" by code_simp
  have e: "\<not> regex_test SEMVER_RE ''1.2.3-''" by code_simp
  have h: "''-h'' \<notin> set [x] \<and> ''--help'' \<notin> set [x]"
    if "x \<in> {''6.1.19-a11y.1'', ''1.2'', ''v1.2.3'', ''1.2.3-''}" for x
    using that by auto
  have g: "''-h'' \<in> set [''1.2'', ''--help''] \<or> ''--help'' \<in> set [''1.2'', ''--help'']" by simp
  note A = C2_validation [of "''6.1.19-a11y.1''" "[]" demo_env demo_world "[''1.2'', ''--help'']"]
  note B = C2_validation [of "''01.2.3''" "[]" demo_env demo_world "[]"]
  note C = C2_validation [of "''1.2''" "[]" demo_env demo_world "[]"]
  note D = C2_validation [of "''v1.2.3''" "[]" demo_env demo_world "[]"]
  note E = C2_validation [of "''1.2.3-''" "[]" demo_env demo_world "[]"]
  from A a h g have 1: "semver_grammar ''6.1.19-a11y.1''"
    "check_args [''6.1.19-a11y.1''] = Proceed ''6.1.19-a11y.1''"
    "fst (main demo_env [''1.2'', ''--help''] demo_world) = 0" by simp_all
  from B b have 2: "semver_grammar ''01.2.3''" by simp
  from C c h have 3: "\<not> semver_grammar ''1.2''" "fst (main demo_env [''1.2''] demo_world) = 1"
    "files (snd (main demo_env [''1.2''] demo_world)) = files demo_world" by simp_all
  from D d h have 4: "\<not> semver_grammar ''v1.2.3''"
    "fst (main demo_env [''v1.2.3''] demo_world) = 1" by simp_all
  from E e h have 5: "\<not> semver_grammar ''1.2.3-''"
    "fst (main demo_env [''1.2.3-''] demo_world) = 1" by simp_all
  from 1 2 3 4 5 show ?thesis by simp
qed

text \<open>
  Claim C2 as stated fails on the help flags: neither is a string of the grammar, and
  with either as the argument the tool exits with code 0, not 1.
\<close>

theorem C2_counterexample:
  "\<not> semver_grammar ''-h'' \<and> fst (main demo_env [''-h''] demo_world) = 0 \<and>
   \<not> semver_grammar ''--help'' \<and> fst (main demo_env [''--help''] demo_world) = 0"
proof -
  have "\<not> regex_test SEMVER_RE ''-h''" "\<not> regex_test SEMVER_RE ''--help''" by code_simp+
  then have "\<not> semver_grammar ''-h''" "\<not> semver_grammar ''--help''"
    by (simp_all add: semver_test_grammar)
  moreover have "fst (main demo_env [''-h''] demo_world) = 0"
    "fst (main demo_env [''--help''] demo_world) = 0"
    by (simp_all add: main_def check_args_def)
  ultimately show ?thesis by simp
qed

subsection \<open>Two runs in a row\<close>

text \<open>
  Claim C4, where it holds: on the plain checkout the first run succeeds and leaves a
  clean tree, and the second run stops at the tag query.
\<close>

theorem C4_second_run_stops_at_tag:
  \<open>fst (main git_env [''1.1.0''] plain_checkout) = 0 \<and>
   fst (shell git_env ''git status --porcelain''
          (files (snd (main git_env [''1.1.0''] plain_checkout)))
          (vcs (snd (main git_env [''1.1.0''] plain_checkout)))) = Some [] \<and>
   fst (main git_env [''1.1.0''] (snd (main git_env [''1.1.0''] plain_checkout))) = 1 \<and>
   new_events (snd (main git_env [''1.1.0''] plain_checkout))
     (snd (main git_env [''1.1.0''] (snd (main git_env [''1.1.0''] plain_checkout)))) =
     [Ran ''git status --porcelain'', Ran ''git tag -l v1.1.0'',
      PrintedErr ''Error: Git tag "v1.1.0" already exists'']\<close>
  by code_simp

text \<open>
  Claim C4, where it fails: with a package in \<^verbatim>\<open>packages/.tools\<close> the first run
  succeeds as well, but it rewrote a manifest that \<^verbatim>\<open>packages/*/package.json\<close>
  did not name, so that file stays modified after the commit, and the second run
  stops at the status query, before the tag is asked for.
\<close>

theorem C4_second_run_stops_at_status:
  \<open>fst (main git_env [''1.1.0''] hidden_checkout) = 0 \<and>
   fst (shell git_env ''git status --porcelain''
          (files (snd (main git_env [''1.1.0''] hidden_checkout)))
          (vcs (snd (main git_env [''1.1.0''] hidden_checkout)))) =
     Some (unlines ['' M packages/.tools/package.json'']) \<and>
   fst (main git_env [''1.1.0''] (snd (main git_env [''1.1.0''] hidden_checkout))) = 1 \<and>
   new_events (snd (main git_env [''1.1.0''] hidden_checkout))
     (snd (main git_env [''1.1.0''] (snd (main git_env [''1.1.0''] hidden_checkout)))) =
     [Ran ''git status --porcelain'',
      PrintedErr ''Error: There are uncommitted changes in the repository'',
      PrintedErr ''Please commit or stash your changes before running this script'']\<close>
  by code_simp

end
